theory Spec2Isabelle
  imports Complex_Main "HOL-Library.AList"
begin

section \<open>JavaScript numbers and nullish values\<close>

text \<open>
  A JavaScript \<open>number\<close> is an IEEE double.  The model keeps the three special values
  apart and represents every finite double by the rational it denotes.  Arithmetic on
  the finite part is exact: the model does not round a product or a quotient to the
  nearest double, and it does not overflow.  Negative zero is identified with zero; it
  is pointed out wherever the source could tell them apart.
\<close>

datatype jsnum = NaN | PosInfinity | NegInfinity | Fin rat

text \<open>
  A value that may be \<open>null\<close> is an \<open>option\<close>.  Where the source can also produce
  \<open>undefined\<close> (an array read outside the array), the three cases are kept apart.
\<close>

datatype 'a nullish = Null | Undefined | Val 'a

text \<open>Multiplication, division and addition with a finite constant operand.\<close>

fun jtimes :: "jsnum \<Rightarrow> rat \<Rightarrow> jsnum" where
  "jtimes NaN c = NaN"
| "jtimes PosInfinity c = (if c = 0 then NaN else if 0 < c then PosInfinity else NegInfinity)"
| "jtimes NegInfinity c = (if c = 0 then NaN else if 0 < c then NegInfinity else PosInfinity)"
| "jtimes (Fin a) c = Fin (a * c)"

fun jover :: "jsnum \<Rightarrow> rat \<Rightarrow> jsnum" where
  "jover NaN c = NaN"
| "jover PosInfinity c = (if 0 \<le> c then PosInfinity else NegInfinity)"
| "jover NegInfinity c = (if 0 \<le> c then NegInfinity else PosInfinity)"
| "jover (Fin a) c =
     (if c = 0 then (if a = 0 then NaN else if 0 < a then PosInfinity else NegInfinity)
      else Fin (a / c))"

fun jplus :: "jsnum \<Rightarrow> rat \<Rightarrow> jsnum" where
  "jplus (Fin a) c = Fin (a + c)"
| "jplus v c = v"

text \<open>\<open>Math.round\<close>: the nearest integer, a tie going towards plus infinity.\<close>

fun Math_round :: "jsnum \<Rightarrow> jsnum" where
  "Math_round (Fin a) = Fin (of_int \<lfloor>a + 1 / 2\<rfloor>)"
| "Math_round v = v"

text \<open>
  The remainder operator \<open>%\<close> with a finite, non-zero right operand: the result takes the
  sign of the dividend (the quotient is truncated towards zero), and the remainder of an
  infinity or of \<open>NaN\<close> is \<open>NaN\<close>.
\<close>

definition trunc :: "rat \<Rightarrow> int" where
  "trunc q = (if 0 \<le> q then \<lfloor>q\<rfloor> else \<lceil>q\<rceil>)"

fun jrem :: "jsnum \<Rightarrow> rat \<Rightarrow> jsnum" where
  "jrem (Fin a) n = (if n = 0 then NaN else Fin (a - n * of_int (trunc (a / n))))"
| "jrem v n = NaN"

text \<open>
  Reading \<open>xs[index]\<close> with a number as index: an integer index inside the array gives
  the element; any other number (negative, fractional, infinite, \<open>NaN\<close>) names a property
  the array does not have, and the read gives \<open>undefined\<close>.
\<close>

fun array_get :: "'a list \<Rightarrow> jsnum \<Rightarrow> 'a nullish" where
  "array_get xs (Fin q) =
     (if q = of_int \<lfloor>q\<rfloor> \<and> 0 \<le> q \<and> nat \<lfloor>q\<rfloor> < length xs then Val (xs ! nat \<lfloor>q\<rfloor>)
      else Undefined)"
| "array_get xs v = Undefined"

section \<open>Unit and compass conversions (\<open>nws.ts\<close>)\<close>

definition round_js :: "jsnum option \<Rightarrow> nat \<Rightarrow> jsnum option" where
  "round_js v digits =
     (case v of
        None \<Rightarrow> None
      | Some x \<Rightarrow>
          if x = NaN then None
          else let factor = 10 ^ digits in Some (jover (Math_round (jtimes x factor)) factor))"

definition cToF :: "jsnum option \<Rightarrow> jsnum option" where
  "cToF v = (case v of None \<Rightarrow> None | Some x \<Rightarrow> round_js (Some (jplus (jtimes x (9 / 5)) 32)) 0)"

definition mpsToMph :: "jsnum option \<Rightarrow> jsnum option" where
  "mpsToMph v = (case v of None \<Rightarrow> None | Some x \<Rightarrow> round_js (Some (jtimes x (223694 / 100000))) 0)"

definition metersToMiles :: "jsnum option \<Rightarrow> jsnum option" where
  "metersToMiles v = (case v of None \<Rightarrow> None | Some x \<Rightarrow> round_js (Some (jover x (160934 / 100))) 1)"

definition pascalToInHg :: "jsnum option \<Rightarrow> jsnum option" where
  "pascalToInHg v = (case v of None \<Rightarrow> None | Some x \<Rightarrow> round_js (Some (jtimes x (2953 / 10000000))) 2)"

definition directions :: "string list" where
  "directions =
     [''N'', ''NNE'', ''NE'', ''ENE'', ''E'', ''ESE'', ''SE'', ''SSE'',
      ''S'', ''SSW'', ''SW'', ''WSW'', ''W'', ''WNW'', ''NW'', ''NNW'']"

definition degreesToCardinal :: "jsnum option \<Rightarrow> string nullish" where
  "degreesToCardinal v =
     (case v of
        None \<Rightarrow> Null
      | Some x \<Rightarrow>
          if x = NaN then Null
          else let index = jrem (Math_round (jover x (45 / 2))) 16 in array_get directions index)"

section \<open>Upstream responses and the aggregated payload (\<open>nws.ts\<close>)\<close>

text \<open>
  The response types of the weather service, with the fields the aggregator reads.  Field
  names that occur in several of the source's types carry the name of their owner.
  An optional object holding a nullable \<open>value\<close> is read by the source only through
  \<open>?.value ?? null\<close>, so it is a plain \<open>option\<close> here.
\<close>

record NwsForecastPeriod =
  name :: string
  startTime :: string
  endTime :: string
  isDaytime :: bool
  temperature :: jsnum
  temperatureUnit :: string
  windSpeed :: string
  windDirection :: string
  shortForecast :: string
  detailedForecast :: string
  icon :: string

record NwsHourlyPeriod = NwsForecastPeriod +
  probabilityOfPrecipitation :: "jsnum option"
  relativeHumidity :: "jsnum option"

record NwsForecastResponse =
  forecast_periods :: "NwsForecastPeriod list"
  forecast_updated :: string

record NwsHourlyResponse =
  hourly_periods :: "NwsHourlyPeriod list"
  hourly_updated :: string

record NwsStation =
  stationIdentifier :: string
  station_name :: string

record NwsStationsResponse =
  features :: "NwsStation list"

record NwsObservationResponse =
  timestamp :: string
  textDescription :: string
  obs_temperature :: "jsnum option"
  obs_dewpoint :: "jsnum option"
  obs_windSpeed :: "jsnum option"
  obs_windDirection :: "jsnum option"
  obs_windGust :: "jsnum option"
  obs_relativeHumidity :: "jsnum option"
  obs_barometricPressure :: "jsnum option"
  obs_visibility :: "jsnum option"
  obs_heatIndex :: "jsnum option"
  obs_windChill :: "jsnum option"

record NwsPointsResponse =
  forecast :: string
  forecastHourly :: string
  observationStations :: string
  city :: "string option"
  state :: "string option"

record Location =
  loc_name :: string
  lat :: jsnum
  lon :: jsnum

record Current =
  temperatureF :: "jsnum option"
  feelsLikeF :: "jsnum option"
  condition :: string
  humidity :: "jsnum option"
  windSpeedMph :: "jsnum option"
  windGustMph :: "jsnum option"
  cur_windDirection :: "string nullish"
  dewPointF :: "jsnum option"
  pressureInHg :: "jsnum option"
  visibilityMiles :: "jsnum option"
  observedAt :: "string option"

record Daily =
  date :: string
  day_name :: string
  highF :: "jsnum option"
  lowF :: "jsnum option"
  summary :: string
  day_icon :: string

record Hourly =
  time :: string
  hr_temperatureF :: jsnum
  hr_summary :: string
  hr_icon :: string
  precipChance :: "jsnum option"
  hr_humidity :: "jsnum option"

record UpdatedAt =
  upd_forecast :: string
  upd_hourly :: string

record WeatherPayload =
  location :: Location
  current :: Current
  daily :: "Daily list"
  hourly :: "Hourly list"
  updatedAt :: UpdatedAt

subsection \<open>\<open>fetchJson\<close>\<close>

text \<open>
  What one HTTP request can do: fail in transport, or answer with a status and a body
  that parses as the expected JSON (\<open>Some\<close>) or does not (\<open>None\<close>).  The source throws
  \<open>NWS request failed: status url\<close> on a status outside 200..299; the other two failures
  are the rejections of \<open>fetch\<close> and of \<open>response.json()\<close>.  \<open>RangeError\<close> is what
  \<open>Intl.DateTimeFormat\<close> throws when asked to format a string that is no date.
\<close>

datatype 'a http_result = NetworkFailure | HttpResponse nat "'a option"

datatype error = TransportError | RequestFailed nat string | BodyNotJson | RangeError

definition ok :: "nat \<Rightarrow> bool" where
  "ok status = (200 \<le> status \<and> status \<le> 299)"

definition fetchJson :: "(string \<Rightarrow> 'a http_result) \<Rightarrow> string \<Rightarrow> error + 'a" where
  "fetchJson http url =
     (case http url of
        NetworkFailure \<Rightarrow> Inl TransportError
      | HttpResponse status body \<Rightarrow>
          if \<not> ok status then Inl (RequestFailed status url)
          else (case body of None \<Rightarrow> Inl BodyNotJson | Some v \<Rightarrow> Inr v))"

text \<open>
  The weather service as one aggregation sees it: each of the five resources is requested
  at most once per aggregation, so one answer per resource and URL describes it.  The
  forecast, the hourly forecast and the station list are requested together;
  \<open>settleOrder\<close> is the order in which their answers arrive.
\<close>

datatype resource = ForecastResource | HourlyResource | StationsResource

record nws =
  points_resource :: "string \<Rightarrow> NwsPointsResponse http_result"
  forecast_resource :: "string \<Rightarrow> NwsForecastResponse http_result"
  hourly_resource :: "string \<Rightarrow> NwsHourlyResponse http_result"
  stations_resource :: "string \<Rightarrow> NwsStationsResponse http_result"
  observation_resource :: "string \<Rightarrow> NwsObservationResponse http_result"
  settleOrder :: "resource list"

subsection \<open>\<open>getWeatherByCoords\<close>\<close>

definition NWS_BASE_URL :: string where
  "NWS_BASE_URL = ''https://api.weather.gov''"

definition NYC_COORDS :: "jsnum \<times> jsnum" where
  "NYC_COORDS = (Fin (407128 / 10000), Fin (- (74006 / 1000)))"

text \<open>
  The first station's identifier, \<open>stations.features?.[0]?.properties?.stationIdentifier\<close>;
  the source then tests it for truthiness, which an empty string fails.
\<close>

definition firstStationId :: "NwsStationsResponse \<Rightarrow> string option" where
  "firstStationId stations =
     (case features stations of
        [] \<Rightarrow> None
      | f # _ \<Rightarrow> if stationIdentifier f = [] then None else Some (stationIdentifier f))"

text \<open>\<open>[city, state].filter(Boolean).join(", ")\<close>\<close>

definition relativeLocationName :: "NwsPointsResponse \<Rightarrow> string" where
  "relativeLocationName points =
     (case filter (\<lambda>s. s \<noteq> []) (map (\<lambda>part. case part of None \<Rightarrow> [] | Some s \<Rightarrow> s) [city points, state points]) of
        [] \<Rightarrow> []
      | [a] \<Rightarrow> a
      | a # b # _ \<Rightarrow> a @ '', '' @ b)"

text \<open>
  The callback of \<open>forecast.properties.periods.forEach\<close>: \<open>newEntry\<close> is the object
  stored for a date key seen for the first time, \<open>applyPeriod\<close> the assignments to the
  entry of the period's day, \<open>updateDay\<close> the callback once the date key is known.  The
  \<open>Map\<close> is an association list in insertion order: \<open>AList.update\<close> replaces the value
  of a key in place and appends a new key at the end, as \<open>Map.prototype.set\<close> does.

  The date key of a start time is produced by \<open>Intl.DateTimeFormat\<close> under the zone
  \<open>America/New_York\<close>.  The formatter is the parameter \<open>formatDateKey\<close>; it gives
  \<open>None\<close> for a start time that is no date, where the source throws \<open>RangeError\<close>.
  The exception leaves \<open>forEach\<close> and the aggregator at once (\<open>forEachPeriod\<close>).
\<close>

definition newEntry :: "NwsForecastPeriod \<Rightarrow> Daily" where
  "newEntry period =
     \<lparr>date = startTime period, day_name = name period, highF = None, lowF = None,
      summary = shortForecast period, day_icon = icon period\<rparr>"

definition applyPeriod :: "NwsForecastPeriod \<Rightarrow> Daily \<Rightarrow> Daily" where
  "applyPeriod period entry =
     (if isDaytime period
      then entry\<lparr>highF := Some (temperature period), summary := shortForecast period,
                 day_icon := icon period\<rparr>
      else entry\<lparr>lowF := Some (temperature period),
                 summary := (if summary entry = [] then shortForecast period
                             else summary entry)\<rparr>)"

definition updateDay ::
  "string \<Rightarrow> (string \<times> Daily) list \<Rightarrow> NwsForecastPeriod \<Rightarrow> (string \<times> Daily) list" where
  "updateDay dateKey dailyMap period =
     (let dailyMap1 =
            (if map_of dailyMap dateKey = None
             then AList.update dateKey (newEntry period) dailyMap
             else dailyMap)
      in case map_of dailyMap1 dateKey of
           None \<Rightarrow> dailyMap1
         | Some entry \<Rightarrow> AList.update dateKey (applyPeriod period entry) dailyMap1)"

definition foldPeriod ::
  "(string \<Rightarrow> string option) \<Rightarrow> (string \<times> Daily) list \<Rightarrow> NwsForecastPeriod \<Rightarrow>
   error + (string \<times> Daily) list" where
  "foldPeriod formatDateKey dailyMap period =
     (case formatDateKey (startTime period) of
        None \<Rightarrow> Inl RangeError
      | Some dateKey \<Rightarrow> Inr (updateDay dateKey dailyMap period))"

fun forEachPeriod ::
  "(string \<Rightarrow> string option) \<Rightarrow> (string \<times> Daily) list \<Rightarrow> NwsForecastPeriod list \<Rightarrow>
   error + (string \<times> Daily) list" where
  "forEachPeriod formatDateKey dailyMap [] = Inr dailyMap"
| "forEachPeriod formatDateKey dailyMap (period # periods) =
     (case foldPeriod formatDateKey dailyMap period of
        Inl e \<Rightarrow> Inl e
      | Inr dailyMap1 \<Rightarrow> forEachPeriod formatDateKey dailyMap1 periods)"

definition foldDaily ::
  "(string \<Rightarrow> string option) \<Rightarrow> NwsForecastPeriod list \<Rightarrow> error + (string \<times> Daily) list" where
  "foldDaily formatDateKey ps = forEachPeriod formatDateKey [] ps"

definition dailyOf ::
  "(string \<Rightarrow> string option) \<Rightarrow> NwsForecastPeriod list \<Rightarrow> error + Daily list" where
  "dailyOf formatDateKey ps =
     (case foldDaily formatDateKey ps of
        Inl e \<Rightarrow> Inl e
      | Inr dailyMap \<Rightarrow> Inr (take 7 (map snd dailyMap)))"

definition hourlyOf :: "NwsHourlyPeriod list \<Rightarrow> Hourly list" where
  "hourlyOf hourlyPeriods =
     map (\<lambda>period.
            \<lparr>time = startTime period, hr_temperatureF = temperature period,
             hr_summary = shortForecast period, hr_icon = icon period,
             precipChance = round_js (probabilityOfPrecipitation period) 0,
             hr_humidity = round_js (relativeHumidity period) 0\<rparr>)
         hourlyPeriods"

text \<open>\<open>a ?? b\<close> on nullable values.\<close>

definition orElse :: "'a option \<Rightarrow> 'a option \<Rightarrow> 'a option" where
  "orElse a b = (case a of None \<Rightarrow> b | Some v \<Rightarrow> Some v)"

text \<open>
  The object the aggregator returns, from the answers and the folded days:
  \<open>observation\<close> is \<open>None\<close> when no request for an observation was made,
  \<open>dailyEntries\<close> is the result of \<open>dailyOf\<close>.
\<close>

definition buildPayload ::
  "jsnum \<Rightarrow> jsnum \<Rightarrow> string option \<Rightarrow> NwsPointsResponse \<Rightarrow>
   NwsForecastResponse \<Rightarrow> NwsHourlyResponse \<Rightarrow> NwsObservationResponse option \<Rightarrow>
   Daily list \<Rightarrow> WeatherPayload" where
  "buildPayload la lo overrideName points fc hr observation dailyEntries =
     (let locationName =
            (case overrideName of
               None \<Rightarrow> relativeLocationName points
             | Some n \<Rightarrow> if n = [] then relativeLocationName points else n);
          hourlyPeriods = take 48 (hourly_periods hr);
          currentTempF = cToF (Option.bind observation obs_temperature);
          feelsLike =
            orElse (Option.bind observation obs_heatIndex)
              (orElse (Option.bind observation obs_windChill)
                 (Option.bind observation obs_temperature))
      in \<lparr>location =
            \<lparr>loc_name = (if locationName = [] then ''Unknown'' else locationName),
             lat = la, lon = lo\<rparr>,
          current =
            \<lparr>temperatureF =
               orElse currentTempF
                 (case hourlyPeriods of [] \<Rightarrow> None | p # _ \<Rightarrow> Some (temperature p)),
             feelsLikeF = cToF feelsLike,
             condition =
               (case observation of
                  Some obs \<Rightarrow> textDescription obs
                | None \<Rightarrow>
                    (case hourlyPeriods of
                       [] \<Rightarrow> ''Current conditions''
                     | p # _ \<Rightarrow> shortForecast p)),
             humidity = round_js (Option.bind observation obs_relativeHumidity) 0,
             windSpeedMph = mpsToMph (Option.bind observation obs_windSpeed),
             windGustMph = mpsToMph (Option.bind observation obs_windGust),
             cur_windDirection = degreesToCardinal (Option.bind observation obs_windDirection),
             dewPointF = cToF (Option.bind observation obs_dewpoint),
             pressureInHg = pascalToInHg (Option.bind observation obs_barometricPressure),
             visibilityMiles = metersToMiles (Option.bind observation obs_visibility),
             observedAt = map_option timestamp observation\<rparr>,
          daily = dailyEntries,
          hourly = hourlyOf hourlyPeriods,
          updatedAt = \<lparr>upd_forecast = forecast_updated fc, upd_hourly = hourly_updated hr\<rparr>\<rparr>)"

text \<open>
  The part of the aggregator after its last \<open>await\<close>: the days are folded, which throws
  on a start time that is no date, and the object is built.
\<close>

definition assemble ::
  "(string \<Rightarrow> string option) \<Rightarrow> jsnum \<Rightarrow> jsnum \<Rightarrow> string option \<Rightarrow> NwsPointsResponse \<Rightarrow>
   NwsForecastResponse \<Rightarrow> NwsHourlyResponse \<Rightarrow> NwsObservationResponse option \<Rightarrow>
   error + WeatherPayload" where
  "assemble formatDateKey la lo overrideName points fc hr observation =
     (case dailyOf formatDateKey (forecast_periods fc) of
        Inl e \<Rightarrow> Inl e
      | Inr dailyEntries \<Rightarrow>
          Inr (buildPayload la lo overrideName points fc hr observation dailyEntries))"

text \<open>
  \<open>Promise.all\<close> over the three requests made together: it rejects with the rejection
  that happens first, so with the error of the first request in \<open>settleOrder\<close> that
  failed (a request missing from \<open>settleOrder\<close> is taken to settle after those listed,
  in the order of the array).
\<close>

definition rejections :: "error + 'a \<Rightarrow> error + 'b \<Rightarrow> error + 'c \<Rightarrow> (resource \<times> error) list" where
  "rejections f h st =
     (case f of Inl e \<Rightarrow> [(ForecastResource, e)] | Inr v \<Rightarrow> []) @
     (case h of Inl e \<Rightarrow> [(HourlyResource, e)] | Inr v \<Rightarrow> []) @
     (case st of Inl e \<Rightarrow> [(StationsResource, e)] | Inr v \<Rightarrow> [])"

definition firstRejected :: "resource list \<Rightarrow> (resource \<times> error) list \<Rightarrow> error option" where
  "firstRejected order rs =
     (case List.map_filter (map_of rs)
             (order @ [ForecastResource, HourlyResource, StationsResource]) of
        [] \<Rightarrow> None
      | e # _ \<Rightarrow> Some e)"

text \<open>
  The requests, in the order the source awaits them.  A failed request ends the
  aggregation with its error: the source has no handler around any of the five requests,
  nor around the fold.  When \<open>Promise.all\<close> has not rejected, each of the three answers
  is a value; the \<open>Inl\<close> branches below it are there for the types only.
  \<open>numberToString\<close> is the conversion of a number inside a template literal.
\<close>

definition getWeatherByCoords ::
  "(jsnum \<Rightarrow> string) \<Rightarrow> (string \<Rightarrow> string option) \<Rightarrow> nws \<Rightarrow> jsnum \<Rightarrow> jsnum \<Rightarrow> string option \<Rightarrow>
   error + WeatherPayload" where
  "getWeatherByCoords numberToString formatDateKey net la lo overrideName =
     (case fetchJson (points_resource net)
             (NWS_BASE_URL @ ''/points/'' @ numberToString la @ '','' @ numberToString lo) of
        Inl e \<Rightarrow> Inl e
      | Inr points \<Rightarrow>
     (let f = fetchJson (forecast_resource net) (forecast points);
          h = fetchJson (hourly_resource net) (forecastHourly points);
          st = fetchJson (stations_resource net) (observationStations points)
      in case firstRejected (settleOrder net) (rejections f h st) of
           Some e \<Rightarrow> Inl e
         | None \<Rightarrow>
     (case f of
        Inl e \<Rightarrow> Inl e
      | Inr fc \<Rightarrow>
     (case h of
        Inl e \<Rightarrow> Inl e
      | Inr hr \<Rightarrow>
     (case st of
        Inl e \<Rightarrow> Inl e
      | Inr stations \<Rightarrow>
     (case firstStationId stations of
        None \<Rightarrow> assemble formatDateKey la lo overrideName points fc hr None
      | Some stationId \<Rightarrow>
          (case fetchJson (observation_resource net)
                  (NWS_BASE_URL @ ''/stations/'' @ stationId @ ''/observations/latest'') of
             Inl e \<Rightarrow> Inl e
           | Inr observation \<Rightarrow>
               assemble formatDateKey la lo overrideName points fc hr (Some observation))))))))"

definition getNewYorkWeather ::
  "(jsnum \<Rightarrow> string) \<Rightarrow> (string \<Rightarrow> string option) \<Rightarrow> nws \<Rightarrow> error + WeatherPayload" where
  "getNewYorkWeather numberToString formatDateKey net =
     getWeatherByCoords numberToString formatDateKey net (fst NYC_COORDS) (snd NYC_COORDS)
       (Some ''New York, NY'')"

section \<open>The retry wrapper (\<open>weather-pipeline.ts\<close>)\<close>

text \<open>
  The world outside one call of \<open>fetchWithRetry\<close>: the weather service as the n-th
  aggregation will see it, and the trace of what has happened.  An aggregation and a
  \<open>sleep\<close> each append one effect; the number of aggregations so far is read off
  the trace.
\<close>

datatype effect = Sleep nat | CallByCoords jsnum jsnum | CallNewYork

record world =
  upstream :: "nat \<Rightarrow> nws"
  trace :: "effect list"

fun isCall :: "effect \<Rightarrow> bool" where
  "isCall (Sleep ms) = False"
| "isCall (CallByCoords la lo) = True"
| "isCall CallNewYork = True"

definition calls :: "world \<Rightarrow> nat" where
  "calls w = length (filter isCall (trace w))"

definition sleep :: "nat \<Rightarrow> world \<Rightarrow> world" where
  "sleep ms w = w\<lparr>trace := trace w @ [Sleep ms]\<rparr>"

text \<open>
  The body of the \<open>try\<close> block: the aggregator for the coordinates when both are
  numbers, the New York aggregator otherwise.
\<close>

definition callEffect :: "jsnum option \<Rightarrow> jsnum option \<Rightarrow> effect" where
  "callEffect la lo =
     (case la of
        None \<Rightarrow> CallNewYork
      | Some a \<Rightarrow> (case lo of None \<Rightarrow> CallNewYork | Some b \<Rightarrow> CallByCoords a b))"

definition aggregate ::
  "(jsnum \<Rightarrow> string) \<Rightarrow> (string \<Rightarrow> string option) \<Rightarrow> jsnum option \<Rightarrow> jsnum option \<Rightarrow> nws \<Rightarrow>
   error + WeatherPayload" where
  "aggregate numberToString formatDateKey la lo net =
     (case la of
        None \<Rightarrow> getNewYorkWeather numberToString formatDateKey net
      | Some a \<Rightarrow>
          (case lo of
             None \<Rightarrow> getNewYorkWeather numberToString formatDateKey net
           | Some b \<Rightarrow> getWeatherByCoords numberToString formatDateKey net a b None))"

definition attempt ::
  "(jsnum \<Rightarrow> string) \<Rightarrow> (string \<Rightarrow> string option) \<Rightarrow> jsnum option \<Rightarrow> jsnum option \<Rightarrow> world \<Rightarrow>
   (error + WeatherPayload) \<times> world" where
  "attempt numberToString formatDateKey la lo w =
     (aggregate numberToString formatDateKey la lo (upstream w (calls w)),
      w\<lparr>trace := trace w @ [callEffect la lo]\<rparr>)"

text \<open>
  The \<open>for\<close> loop over the delays.  \<open>lastError\<close> starts as \<open>null\<close> (\<open>None\<close>); the value
  thrown after the loop is \<open>lastError\<close>, so the failure of the wrapper is an
  \<open>error option\<close>.
\<close>

fun retryLoop ::
  "(jsnum \<Rightarrow> string) \<Rightarrow> (string \<Rightarrow> string option) \<Rightarrow> jsnum option \<Rightarrow> jsnum option \<Rightarrow> nat list \<Rightarrow>
   error option \<Rightarrow> world \<Rightarrow> (error option + WeatherPayload) \<times> world" where
  "retryLoop numberToString formatDateKey la lo [] lastError w = (Inl lastError, w)"
| "retryLoop numberToString formatDateKey la lo (delay # attempts) lastError w =
     (let w1 = (if 0 < delay then sleep delay w else w)
      in case attempt numberToString formatDateKey la lo w1 of
           (Inr payload, w2) \<Rightarrow> (Inr payload, w2)
         | (Inl e, w2) \<Rightarrow> retryLoop numberToString formatDateKey la lo attempts (Some e) w2)"

definition fetchWithRetry ::
  "(jsnum \<Rightarrow> string) \<Rightarrow> (string \<Rightarrow> string option) \<Rightarrow> jsnum option \<Rightarrow> jsnum option \<Rightarrow> world \<Rightarrow>
   (error option + WeatherPayload) \<times> world" where
  "fetchWithRetry numberToString formatDateKey la lo w =
     retryLoop numberToString formatDateKey la lo [0, 300, 800] None w"

section \<open>The snapshot cache (\<open>weather-pipeline.ts\<close>)\<close>

definition CACHE_TTL_MS :: int where
  "CACHE_TTL_MS = 5 * 60 * 1000"

definition STALE_TTL_MS :: int where
  "STALE_TTL_MS = 30 * 60 * 1000"

text \<open>
  Times are the milliseconds \<open>Date.now()\<close> returns.  The in-flight promise of a bucket is
  named by its index in the list of promises the cache has created.
\<close>

record CacheEntry =
  data :: WeatherPayload
  fetchedAt :: int

record CacheBucket =
  cache :: "CacheEntry option"
  lastGood :: "CacheEntry option"
  inFlight :: "nat option"

datatype source = Live | Cache | Stale

text \<open>
  \<open>meta_fetchedAt\<close> is the instant whose ISO-8601 rendering the source stores in
  \<open>meta.fetchedAt\<close>.
\<close>

record WeatherMeta =
  source :: source
  meta_fetchedAt :: int
  ageMs :: int

record Snapshot =
  snap_data :: WeatherPayload
  meta :: WeatherMeta

definition buildMeta :: "source \<Rightarrow> int \<Rightarrow> int \<Rightarrow> WeatherMeta" where
  "buildMeta src fetched clock = \<lparr>source = src, meta_fetchedAt = fetched, ageMs = clock - fetched\<rparr>"

definition applyOverrideName :: "WeatherPayload \<Rightarrow> string option \<Rightarrow> WeatherPayload" where
  "applyOverrideName payload overrideName =
     (case overrideName of
        None \<Rightarrow> payload
      | Some n \<Rightarrow>
          if n = [] then payload
          else payload\<lparr>location := (location payload)\<lparr>loc_name := n\<rparr>\<rparr>)"

text \<open>
  The fetch function handed to the cache is one of two closures over \<open>fetchWithRetry\<close>.
  Calling it creates a promise; the promise chain
  \<open>fetcher().then(store).finally(clear)\<close> moves through four phases, one callback at a
  time: the fetcher is running; the fetcher has settled; the \<open>then\<close> callback has run
  (or was skipped, on rejection); the \<open>finally\<close> callback has run and the promise stored
  in \<open>inFlight\<close> is settled.
\<close>

datatype fetcher = FetchCoords jsnum jsnum | FetchDefault

type_synonym fetched = "error option + WeatherPayload"

datatype phase = Running | FetcherSettled fetched | ThenSettled fetched | Settled fetched

record promise =
  p_bucket :: string
  p_fetcher :: fetcher
  p_phase :: phase

record pipeline =
  cacheBuckets :: "string \<Rightarrow> CacheBucket option"
  promises :: "promise list"

definition runFetcher ::
  "(jsnum \<Rightarrow> string) \<Rightarrow> (string \<Rightarrow> string option) \<Rightarrow> fetcher \<Rightarrow> world \<Rightarrow> fetched \<times> world" where
  "runFetcher numberToString formatDateKey f w =
     (case f of
        FetchCoords la lo \<Rightarrow> fetchWithRetry numberToString formatDateKey (Some la) (Some lo) w
      | FetchDefault \<Rightarrow> fetchWithRetry numberToString formatDateKey None None w)"

definition emptyBucket :: CacheBucket where
  "emptyBucket = \<lparr>cache = None, lastGood = None, inFlight = None\<rparr>"

definition getBucket :: "string \<Rightarrow> pipeline \<Rightarrow> CacheBucket \<times> pipeline" where
  "getBucket key s =
     (case cacheBuckets s key of
        Some existing \<Rightarrow> (existing, s)
      | None \<Rightarrow> (emptyBucket, s\<lparr>cacheBuckets := (cacheBuckets s)(key \<mapsto> emptyBucket)\<rparr>))"

text \<open>
  \<open>getSnapshotForBucket\<close> up to its \<open>await\<close>.  This part runs without interruption: it
  either returns the cached snapshot or leaves the caller waiting for a promise, which it
  has created if the bucket had none in flight.  \<open>now\<close> is the clock read on entry,
  \<open>clock\<close> the one \<open>buildMeta\<close> makes.
\<close>

datatype progress = Returned Snapshot | Awaiting nat

definition isFresh :: "CacheBucket \<Rightarrow> int \<Rightarrow> bool" where
  "isFresh bucket now =
     (case cache bucket of None \<Rightarrow> False | Some e \<Rightarrow> now - fetchedAt e < CACHE_TTL_MS)"

definition getSnapshotForBucket_enter ::
  "string \<Rightarrow> fetcher \<Rightarrow> string option \<Rightarrow> int \<Rightarrow> int \<Rightarrow> pipeline \<Rightarrow> progress \<times> pipeline" where
  "getSnapshotForBucket_enter bucketKey f overrideName now clock s =
     (let (bucket, s1) = getBucket bucketKey s
      in case (if isFresh bucket now then cache bucket else None) of
           Some e \<Rightarrow>
             (Returned \<lparr>snap_data = applyOverrideName (data e) overrideName,
                        meta = buildMeta Cache (fetchedAt e) clock\<rparr>, s1)
         | None \<Rightarrow>
             (case inFlight bucket of
                Some pid \<Rightarrow> (Awaiting pid, s1)
              | None \<Rightarrow>
                  (let pid = length (promises s1)
                   in (Awaiting pid,
                       s1\<lparr>cacheBuckets := (cacheBuckets s1)(bucketKey \<mapsto> bucket\<lparr>inFlight := Some pid\<rparr>),
                          promises := promises s1 @
                            [\<lparr>p_bucket = bucketKey, p_fetcher = f, p_phase = Running\<rparr>]\<rparr>))))"

text \<open>The callbacks of the promise chain; each acts on the bucket its closure captured.\<close>

definition updateBucket :: "string \<Rightarrow> (CacheBucket \<Rightarrow> CacheBucket) \<Rightarrow> pipeline \<Rightarrow> pipeline" where
  "updateBucket key f s =
     (case cacheBuckets s key of
        None \<Rightarrow> s
      | Some b \<Rightarrow> s\<lparr>cacheBuckets := (cacheBuckets s)(key \<mapsto> f b)\<rparr>)"

definition phaseOf :: "pipeline \<Rightarrow> nat \<Rightarrow> phase option" where
  "phaseOf s pid = (if pid < length (promises s) then Some (p_phase (promises s ! pid)) else None)"

definition setPhase :: "nat \<Rightarrow> phase \<Rightarrow> pipeline \<Rightarrow> pipeline" where
  "setPhase pid ph s = s\<lparr>promises := (promises s)[pid := (promises s ! pid)\<lparr>p_phase := ph\<rparr>]\<rparr>"

definition fetcherSettles :: "nat \<Rightarrow> fetched \<Rightarrow> pipeline \<Rightarrow> pipeline" where
  "fetcherSettles pid r s =
     (case phaseOf s pid of Some Running \<Rightarrow> setPhase pid (FetcherSettled r) s | _ \<Rightarrow> s)"

definition storeFetched :: "WeatherPayload \<Rightarrow> int \<Rightarrow> CacheBucket \<Rightarrow> CacheBucket" where
  "storeFetched payload clock bucket =
     bucket\<lparr>cache := Some \<lparr>data = payload, fetchedAt = clock\<rparr>,
            lastGood := Some \<lparr>data = payload, fetchedAt = clock\<rparr>\<rparr>"

definition thenCallback :: "nat \<Rightarrow> int \<Rightarrow> pipeline \<Rightarrow> pipeline" where
  "thenCallback pid clock s =
     (case phaseOf s pid of
        Some (FetcherSettled r) \<Rightarrow>
          setPhase pid (ThenSettled r)
            (case r of
               Inr payload \<Rightarrow> updateBucket (p_bucket (promises s ! pid)) (storeFetched payload clock) s
             | Inl e \<Rightarrow> s)
      | _ \<Rightarrow> s)"

definition finallyCallback :: "nat \<Rightarrow> pipeline \<Rightarrow> pipeline" where
  "finallyCallback pid s =
     (case phaseOf s pid of
        Some (ThenSettled r) \<Rightarrow>
          setPhase pid (Settled r)
            (updateBucket (p_bucket (promises s ! pid)) (\<lambda>b. b\<lparr>inFlight := None\<rparr>) s)
      | _ \<Rightarrow> s)"

text \<open>
  \<open>getSnapshotForBucket\<close> after its \<open>await\<close>: the \<open>try\<close> and \<open>catch\<close> blocks, on the
  bucket as it is when the caller resumes.  \<open>now\<close> is still the clock read on entry;
  \<open>clock1\<close> is the read that replaces a missing \<open>fetchedAt\<close>, \<open>clock2\<close> the one
  \<open>buildMeta\<close> makes.
\<close>

definition afterAwait ::
  "CacheBucket \<Rightarrow> string option \<Rightarrow> int \<Rightarrow> fetched \<Rightarrow> int \<Rightarrow> int \<Rightarrow> error option + Snapshot" where
  "afterAwait bucket overrideName now awaited clock1 clock2 =
     (case awaited of
        Inr payload \<Rightarrow>
          (let fetched = (case cache bucket of Some e \<Rightarrow> fetchedAt e | None \<Rightarrow> clock1)
           in Inr \<lparr>snap_data = applyOverrideName payload overrideName,
                   meta = buildMeta Live fetched clock2\<rparr>)
      | Inl err \<Rightarrow>
          (case orElse (lastGood bucket) (cache bucket) of
             None \<Rightarrow> Inl err
           | Some fallback \<Rightarrow>
               if now - fetchedAt fallback < STALE_TTL_MS
               then Inr \<lparr>snap_data = applyOverrideName (data fallback) overrideName,
                         meta = buildMeta Stale (fetchedAt fallback) clock2\<rparr>
               else Inl err))"

text \<open>
  A waiting caller resumes once the promise it awaits has settled; until then there is
  no result (\<open>None\<close>).
\<close>

definition getSnapshotForBucket_resume ::
  "string \<Rightarrow> string option \<Rightarrow> int \<Rightarrow> nat \<Rightarrow> int \<Rightarrow> int \<Rightarrow> pipeline \<Rightarrow>
   (error option + Snapshot) option" where
  "getSnapshotForBucket_resume bucketKey overrideName now pid clock1 clock2 s =
     (case cacheBuckets s bucketKey of
        None \<Rightarrow> None
      | Some bucket \<Rightarrow>
          (case phaseOf s pid of
             Some (Settled r) \<Rightarrow> Some (afterAwait bucket overrideName now r clock1 clock2)
           | _ \<Rightarrow> None))"

subsection \<open>Bucket keys and the two entry points\<close>

text \<open>
  \<open>Number.prototype.toFixed\<close>, as ECMAScript defines it: a number that is not finite is
  rendered by name; a magnitude of at least \<open>10^21\<close> is rendered by the general number
  conversion (the parameter \<open>numberToString\<close>); otherwise the digits are those of the
  integer \<open>n\<close> nearest to the magnitude times \<open>10^f\<close>, the larger one on a tie, padded
  with zeros to \<open>f + 1\<close> digits, with a minus sign whenever the number is below zero.
\<close>

definition digitChars :: string where
  "digitChars = ''0123456789''"

fun decimal :: "nat \<Rightarrow> string" where
  "decimal n = (if n < 10 then [digitChars ! n] else decimal (n div 10) @ [digitChars ! (n mod 10)])"

definition fixedDigits :: "nat \<Rightarrow> nat \<Rightarrow> string" where
  "fixedDigits n f =
     (let m = decimal n
      in if f = 0 then m
         else (let m0 = (if length m \<le> f then replicate (f + 1 - length m) (CHR ''0'') @ m else m);
                   k = length m0
               in take (k - f) m0 @ ''.'' @ drop (k - f) m0))"

definition toFixed :: "(jsnum \<Rightarrow> string) \<Rightarrow> jsnum \<Rightarrow> nat \<Rightarrow> string" where
  "toFixed numberToString x f =
     (case x of
        NaN \<Rightarrow> ''NaN''
      | PosInfinity \<Rightarrow> ''Infinity''
      | NegInfinity \<Rightarrow> ''-Infinity''
      | Fin q \<Rightarrow>
          (let s = (if q < 0 then ''-'' else []);
               a = \<bar>q\<bar>
           in if 10 ^ 21 \<le> a then s @ numberToString (Fin a)
              else s @ fixedDigits (nat \<lfloor>a * 10 ^ f + 1 / 2\<rfloor>) f))"

definition coordsBucketKey :: "(jsnum \<Rightarrow> string) \<Rightarrow> jsnum \<Rightarrow> jsnum \<Rightarrow> string" where
  "coordsBucketKey numberToString la lo =
     ''coords:'' @ (toFixed numberToString la 3 @ '','' @ toFixed numberToString lo 3)"

definition getWeatherSnapshotByCoords_enter ::
  "(jsnum \<Rightarrow> string) \<Rightarrow> jsnum \<Rightarrow> jsnum \<Rightarrow> string option \<Rightarrow> int \<Rightarrow> int \<Rightarrow> pipeline \<Rightarrow>
   progress \<times> pipeline" where
  "getWeatherSnapshotByCoords_enter numberToString la lo overrideName now clock s =
     getSnapshotForBucket_enter (coordsBucketKey numberToString la lo) (FetchCoords la lo)
       overrideName now clock s"

definition getWeatherSnapshot_enter :: "int \<Rightarrow> int \<Rightarrow> pipeline \<Rightarrow> progress \<times> pipeline" where
  "getWeatherSnapshot_enter now clock s =
     getSnapshotForBucket_enter ''default'' FetchDefault None now clock s"

subsection \<open>The cache as a transition system\<close>

text \<open>
  JavaScript runs one callback at a time.  The events that change the cache are
  therefore: a caller enters \<open>getSnapshotForBucket\<close> (up to the \<open>await\<close>); a fetcher
  settles with some result; the \<open>then\<close> callback of a chain runs, reading the clock; the
  \<open>finally\<close> callback of a chain runs.  Events may interleave in any order; an event that
  is not enabled leaves the state as it is.  Resuming a caller only reads the state.
\<close>

datatype event =
    Enter string fetcher int
  | FetcherSettles nat fetched
  | ThenCallback nat int
  | FinallyCallback nat

fun step :: "event \<Rightarrow> pipeline \<Rightarrow> pipeline" where
  "step (Enter key f now) s = snd (getSnapshotForBucket_enter key f None now now s)"
| "step (FetcherSettles pid r) s = fetcherSettles pid r s"
| "step (ThenCallback pid clock) s = thenCallback pid clock s"
| "step (FinallyCallback pid) s = finallyCallback pid s"

definition initial :: pipeline where
  "initial = \<lparr>cacheBuckets = (\<lambda>key. None), promises = []\<rparr>"

definition run :: "event list \<Rightarrow> pipeline \<Rightarrow> pipeline" where
  "run events s = foldl (\<lambda>s e. step e s) s events"

inductive reachable :: "pipeline \<Rightarrow> bool" where
  reachable_initial: "reachable initial"
| reachable_step: "reachable s \<Longrightarrow> reachable (step e s)"

text \<open>
  The fetches of a bucket that are outstanding (the fetcher has not settled), and the
  invocations of the fetch function made for a bucket so far.
\<close>

definition outstanding :: "pipeline \<Rightarrow> string \<Rightarrow> nat list" where
  "outstanding s key =
     filter (\<lambda>pid. p_bucket (promises s ! pid) = key \<and> p_phase (promises s ! pid) = Running)
       [0..<length (promises s)]"

definition invocations :: "pipeline \<Rightarrow> string \<Rightarrow> nat" where
  "invocations s key = length (filter (\<lambda>p. p_bucket p = key) (promises s))"

subsection \<open>Invariants of the transition system\<close>

text \<open>
  The two slots of every bucket hold the same entry; and every promise chain that has
  not run to its end is the one recorded in \<open>inFlight\<close> of its bucket.
\<close>

definition slotsAgree :: "pipeline \<Rightarrow> bool" where
  "slotsAgree s = (\<forall>key b. cacheBuckets s key = Some b \<longrightarrow> cache b = lastGood b)"

fun isSettled :: "phase \<Rightarrow> bool" where
  "isSettled (Settled r) = True"
| "isSettled ph = False"

definition chainsTracked :: "pipeline \<Rightarrow> bool" where
  "chainsTracked s =
     (\<forall>pid < length (promises s).
        \<not> isSettled (p_phase (promises s ! pid)) \<longrightarrow>
        (\<exists>b. cacheBuckets s (p_bucket (promises s ! pid)) = Some b \<and> inFlight b = Some pid))"

section \<open>Reference notions and sample data\<close>

text \<open>
  Rounding to three decimal places as a number, following the specification's wording
  for the bucket key: the magnitude is rounded to the nearest thousandth (a tie away from
  zero) and the sign is put back.  Minus zero and zero are the same number.
\<close>

definition spec_round3 :: "jsnum \<Rightarrow> jsnum" where
  "spec_round3 x =
     (case x of
        Fin q \<Rightarrow> Fin ((if q < 0 then - 1 else 1) * of_int \<lfloor>\<bar>q\<bar> * 1000 + 1 / 2\<rfloor> / 1000)
      | _ \<Rightarrow> x)"

text \<open>
  The temperature of the last period of a list that has the given date key and is a
  daytime (or nighttime) period; \<open>None\<close> when the list has no such period.
\<close>

definition spec_lastTemperature ::
  "(string \<Rightarrow> string option) \<Rightarrow> bool \<Rightarrow> string \<Rightarrow> NwsForecastPeriod list \<Rightarrow> jsnum option" where
  "spec_lastTemperature formatDateKey day k ps =
     (case rev (filter (\<lambda>p. formatDateKey (startTime p) = Some k \<and> isDaytime p = day) ps) of
        [] \<Rightarrow> None
      | q # _ \<Rightarrow> Some (temperature q))"

text \<open>
  The fold of a period list all of whose start times have a date key, with the key of a
  period given by a total function.
\<close>

definition foldKeyed ::
  "(NwsForecastPeriod \<Rightarrow> string) \<Rightarrow> NwsForecastPeriod list \<Rightarrow> (string \<times> Daily) list" where
  "foldKeyed key ps = foldl (\<lambda>dailyMap p. updateDay (key p) dailyMap p) [] ps"

text \<open>
  The numbers of the model are all rationals; the finite doubles are those of the form
  \<open>m * 2^e\<close> with \<open>\<bar>m\<bar> < 2^53\<close>.  One consequence is all that is used below: a double
  of magnitude \<open>2^53\<close> or more is a whole number.
\<close>

definition wholeIfLarge :: "rat \<Rightarrow> bool" where
  "wholeIfLarge q = (2 ^ 53 \<le> \<bar>q\<bar> \<longrightarrow> q = of_int \<lfloor>q\<rfloor>)"

definition doubleLike :: "jsnum \<Rightarrow> bool" where
  "doubleLike x = (case x of Fin q \<Rightarrow> wholeIfLarge q | _ \<Rightarrow> True)"

text \<open>Whether a number is below zero (\<open>NaN\<close> is not).\<close>

definition isNegative :: "jsnum \<Rightarrow> bool" where
  "isNegative x = (case x of Fin q \<Rightarrow> q < 0 | NegInfinity \<Rightarrow> True | _ \<Rightarrow> False)"

text \<open>A small forecast, used to run the definitions on concrete inputs.\<close>

definition samplePeriod :: "string \<Rightarrow> string \<Rightarrow> bool \<Rightarrow> rat \<Rightarrow> string \<Rightarrow> NwsForecastPeriod" where
  "samplePeriod nm start day temp short =
     \<lparr>name = nm, startTime = start, endTime = start, isDaytime = day, temperature = Fin temp,
      temperatureUnit = ''F'', windSpeed = ''5 mph'', windDirection = ''N'',
      shortForecast = short, detailedForecast = short, icon = ''icon:'' @ short\<rparr>"

definition sampleHour :: "string \<Rightarrow> rat \<Rightarrow> string \<Rightarrow> NwsHourlyPeriod" where
  "sampleHour start temp short =
     \<lparr>name = [], startTime = start, endTime = start, isDaytime = True, temperature = Fin temp,
      temperatureUnit = ''F'', windSpeed = ''5 mph'', windDirection = ''N'',
      shortForecast = short, detailedForecast = short, icon = ''icon:'' @ short,
      probabilityOfPrecipitation = Some (Fin 20), relativeHumidity = None\<rparr>"

definition samplePoints :: NwsPointsResponse where
  "samplePoints =
     \<lparr>forecast = ''/forecast'', forecastHourly = ''/hourly'', observationStations = ''/stations'',
      city = Some ''Boston'', state = Some ''MA''\<rparr>"

definition sampleForecast :: NwsForecastResponse where
  "sampleForecast =
     \<lparr>forecast_periods =
        [samplePeriod ''Today'' ''2024-05-01T06:00'' True 80 ''Sunny'',
         samplePeriod ''Tonight'' ''2024-05-01T18:00'' False 60 ''Clear''],
      forecast_updated = ''2024-05-01T05:00''\<rparr>"

definition sampleHourly :: NwsHourlyResponse where
  "sampleHourly =
     \<lparr>hourly_periods = [sampleHour ''2024-05-01T06:00'' 71 ''Mostly Sunny''],
      hourly_updated = ''2024-05-01T05:30''\<rparr>"

definition sampleStation :: NwsStation where
  "sampleStation = \<lparr>stationIdentifier = ''KBOS'', station_name = ''Boston Logan''\<rparr>"

definition sampleNet :: "NwsStation list \<Rightarrow> NwsObservationResponse http_result \<Rightarrow> nws" where
  "sampleNet stations obs =
     \<lparr>points_resource = (\<lambda>url. HttpResponse 200 (Some samplePoints)),
      forecast_resource = (\<lambda>url. HttpResponse 200 (Some sampleForecast)),
      hourly_resource = (\<lambda>url. HttpResponse 200 (Some sampleHourly)),
      stations_resource = (\<lambda>url. HttpResponse 200 (Some \<lparr>features = stations\<rparr>)),
      observation_resource = (\<lambda>url. obs),
      settleOrder = [ForecastResource, HourlyResource, StationsResource]\<rparr>"

text \<open>A service that answers every request with status 503.\<close>

definition downNet :: nws where
  "downNet =
     \<lparr>points_resource = (\<lambda>url. HttpResponse 503 None),
      forecast_resource = (\<lambda>url. HttpResponse 503 None),
      hourly_resource = (\<lambda>url. HttpResponse 503 None),
      stations_resource = (\<lambda>url. HttpResponse 503 None),
      observation_resource = (\<lambda>url. HttpResponse 503 None),
      settleOrder = [StationsResource, HourlyResource, ForecastResource]\<rparr>"

text \<open>A world whose service is down for the first two aggregations and up afterwards.\<close>

definition flakyWorld :: world where
  "flakyWorld =
     \<lparr>upstream = (\<lambda>n. if n < 2 then downNet else sampleNet [] NetworkFailure), trace = []\<rparr>"

text \<open>
  A payload, and the events of one request to the default bucket whose fetch succeeds:
  the caller enters at time 0, the fetcher settles, the \<open>then\<close> callback stores the
  payload at time 1000, the \<open>finally\<close> callback clears the in-flight marker.
\<close>

definition sampleDaily :: "Daily list" where
  "sampleDaily =
     [\<lparr>date = ''2024-05-01T06:00'', day_name = ''Today'', highF = Some (Fin 80),
       lowF = Some (Fin 60), summary = ''Sunny'', day_icon = ''icon:Sunny''\<rparr>]"

definition samplePayload :: WeatherPayload where
  "samplePayload =
     buildPayload (Fin 42) (Fin (- 71)) None samplePoints sampleForecast sampleHourly None
       sampleDaily"

definition sampleEntry :: CacheEntry where
  "sampleEntry = \<lparr>data = samplePayload, fetchedAt = 1000\<rparr>"

definition sampleRun :: "event list" where
  "sampleRun =
     [Enter ''default'' FetchDefault 0, FetcherSettles 0 (Inr samplePayload),
      ThenCallback 0 1000, FinallyCallback 0]"

definition sampleState :: pipeline where
  "sampleState =
     \<lparr>cacheBuckets =
        (\<lambda>key. None)(''default'' \<mapsto>
          \<lparr>cache = Some sampleEntry, lastGood = Some sampleEntry, inFlight = None\<rparr>),
      promises =
        [\<lparr>p_bucket = ''default'', p_fetcher = FetchDefault, p_phase = Settled (Inr samplePayload)\<rparr>]\<rparr>"

text \<open>
  The date key of the sample data: the first ten characters of the start time; a shorter
  string is no date.
\<close>

definition sampleDateKey :: "string \<Rightarrow> string option" where
  "sampleDateKey start = (if 10 \<le> length start then Some (take 10 start) else None)"

text \<open>The sample forecast with a period whose start time is no date.\<close>

definition brokenForecast :: NwsForecastResponse where
  "brokenForecast =
     \<lparr>forecast_periods = [samplePeriod ''Later'' ''soon'' True 75 ''Sunny''],
      forecast_updated = ''2024-05-01T05:00''\<rparr>"

definition brokenNet :: nws where
  "brokenNet =
     (sampleNet [] NetworkFailure)
       \<lparr>forecast_resource := (\<lambda>url. HttpResponse 200 (Some brokenForecast))\<rparr>"

definition sampleNumberToString :: "jsnum \<Rightarrow> string" where
  "sampleNumberToString x = ''0''"

section \<open>Properties of the compass conversion\<close>

lemma length_directions: "length directions = 16"
  by (simp add: directions_def)

lemma trunc_of_int_div16:
  assumes "0 \<le> k"
  shows "trunc (of_int k / 16) = k div 16"
proof -
  have "(0::rat) \<le> of_int k / 16" using assms by simp
  moreover have "\<lfloor>(of_int k :: rat) / 16\<rfloor> = k div 16"
    using floor_divide_of_int_eq [of k 16, where ?'a = rat] by simp
  ultimately show ?thesis by (simp add: trunc_def)
qed

lemma jrem_16_nonneg:
  assumes "0 \<le> k"
  shows "jrem (Fin (of_int k)) 16 = Fin (of_int (k mod 16))"
proof -
  have "k - 16 * (k div 16) = k mod 16"
    by (simp add: minus_mult_div_eq_mod)
  then have "(of_int k :: rat) - 16 * of_int (k div 16) = of_int (k mod 16)"
    by (metis of_int_diff of_int_mult of_int_numeral)
  then show ?thesis
    using assms by (simp add: trunc_of_int_div16)
qed

lemma array_get_directions:
  assumes "0 \<le> i" "i < 16"
  shows "array_get directions (Fin (of_int i)) = Val (directions ! nat i)"
  using assms by (simp add: length_directions)

lemma degreesToCardinal_nonneg:
  assumes "0 \<le> d"
  shows "degreesToCardinal (Some (Fin d)) = Val (directions ! nat (\<lfloor>d / (45 / 2) + 1 / 2\<rfloor> mod 16))"
proof -
  define k where "k = \<lfloor>d / (45 / 2) + 1 / 2\<rfloor>"
  have "0 \<le> d / (45 / 2) + 1 / 2" using assms by simp
  then have k0: "0 \<le> k" unfolding k_def by simp
  have m: "0 \<le> k mod 16" "k mod 16 < 16" by simp_all
  have "degreesToCardinal (Some (Fin d)) = array_get directions (jrem (Fin (of_int k)) 16)"
    by (simp add: degreesToCardinal_def k_def)
  also have "\<dots> = array_get directions (Fin (of_int (k mod 16)))"
    using k0 by (simp only: jrem_16_nonneg)
  also have "\<dots> = Val (directions ! nat (k mod 16))"
    using m by (rule array_get_directions)
  finally show ?thesis by (simp add: k_def)
qed

lemma degreesToCardinal_null_nan:
  "degreesToCardinal None = Null \<and> degreesToCardinal (Some NaN) = Null"
  by (simp add: degreesToCardinal_def)

lemma degreesToCardinal_examples:
  "degreesToCardinal (Some (Fin 0)) = Val ''N'' \<and>
   degreesToCardinal (Some (Fin 90)) = Val ''E'' \<and>
   degreesToCardinal (Some (Fin 359)) = Val ''N''"
  by code_simp

text \<open>
  C9.  The compass conversion is claimed to return, for every number other than \<open>NaN\<close>,
  the entry of the sixteen-point table at index \<open>round(degrees / 22.5) mod 16\<close>.  For
  \<open>-90\<close> degrees that index is 12, the entry \<open>W\<close>; the source's remainder keeps the
  sign of the dividend, the index is \<open>-4\<close>, and the read outside the table gives
  \<open>undefined\<close>, which is neither a table entry nor \<open>null\<close>.
\<close>

theorem degreesToCardinal_negative_undefined:
  "degreesToCardinal (Some (Fin (- 90))) = Undefined \<and>
   directions ! nat (\<lfloor>(- 90 :: rat) / (45 / 2) + 1 / 2\<rfloor> mod 16) = ''W''"
  by code_simp

section \<open>Folding the forecast periods into days\<close>

subsection \<open>One period\<close>

lemma map_of_updateDay:
  "map_of (updateDay k m p) =
     (map_of m)(k \<mapsto> applyPeriod p (case map_of m k of None \<Rightarrow> newEntry p | Some e \<Rightarrow> e))"
  by (auto simp add: updateDay_def Let_def update_conv' split: option.splits)

lemma keys_updateDay:
  "map fst (updateDay k m p) = (if k \<in> set (map fst m) then map fst m else map fst m @ [k])"
proof (cases "map_of m k")
  case None
  then have "k \<notin> set (map fst m)"
    by (simp add: map_of_eq_None_iff)
  then show ?thesis
    using None by (simp add: updateDay_def Let_def update_conv' update_keys)
next
  case (Some e)
  then have "k \<in> set (map fst m)"
    by (metis map_of_eq_None_iff option.distinct(1) set_map)
  then show ?thesis
    using Some by (simp add: updateDay_def Let_def update_keys)
qed

lemma applyPeriod_fields:
  "date (applyPeriod p e) = date e"
  "day_name (applyPeriod p e) = day_name e"
  "highF (applyPeriod p e) = (if isDaytime p then Some (temperature p) else highF e)"
  "lowF (applyPeriod p e) = (if isDaytime p then lowF e else Some (temperature p))"
  "day_icon (applyPeriod p e) = (if isDaytime p then icon p else day_icon e)"
  "summary (applyPeriod p e) =
     (if isDaytime p then shortForecast p
      else if summary e = [] then shortForecast p else summary e)"
  by (simp_all add: applyPeriod_def)

lemma newEntry_fields:
  "date (newEntry p) = startTime p" "day_name (newEntry p) = name p"
  "highF (newEntry p) = None" "lowF (newEntry p) = None"
  "summary (newEntry p) = shortForecast p" "day_icon (newEntry p) = icon p"
  by (simp_all add: newEntry_def)

subsection \<open>The loop, with and without a start time that is no date\<close>

lemma forEachPeriod_valid:
  assumes "\<forall>p\<in>set ps. fmt (startTime p) = Some (key p)"
  shows "forEachPeriod fmt m ps = Inr (foldl (\<lambda>dailyMap p. updateDay (key p) dailyMap p) m ps)"
  using assms by (induction ps arbitrary: m) (simp_all add: foldPeriod_def)

lemma forEachPeriod_invalid:
  assumes "\<exists>p\<in>set ps. fmt (startTime p) = None"
  shows "forEachPeriod fmt m ps = Inl RangeError"
  using assms
proof (induction ps arbitrary: m)
  case Nil
  then show ?case by simp
next
  case (Cons p ps)
  show ?case
  proof (cases "fmt (startTime p)")
    case None
    then show ?thesis by (simp add: foldPeriod_def)
  next
    case (Some k)
    then have "\<exists>q\<in>set ps. fmt (startTime q) = None"
      using Cons.prems by auto
    then show ?thesis
      using Some Cons.IH by (simp add: foldPeriod_def)
  qed
qed

lemma forEachPeriod_snoc:
  "forEachPeriod fmt m (ps @ [p]) =
     (case forEachPeriod fmt m ps of Inl e \<Rightarrow> Inl e | Inr m1 \<Rightarrow> foldPeriod fmt m1 p)"
  by (induction ps arbitrary: m) (simp_all split: sum.splits)

lemma valid_the:
  assumes "\<forall>p\<in>set ps. fmt (startTime p) \<noteq> None"
  shows "\<forall>p\<in>set ps. fmt (startTime p) = Some (the (fmt (startTime p)))"
  using assms by simp

lemma foldDaily_valid:
  assumes "\<forall>p\<in>set ps. fmt (startTime p) = Some (key p)"
  shows "foldDaily fmt ps = Inr (foldKeyed key ps)"
  using forEachPeriod_valid [OF assms] by (simp add: foldDaily_def foldKeyed_def)

lemma foldDaily_invalid:
  assumes "\<exists>p\<in>set ps. fmt (startTime p) = None"
  shows "foldDaily fmt ps = Inl RangeError"
  using forEachPeriod_invalid [OF assms] by (simp add: foldDaily_def)

lemma dailyOf_valid:
  assumes "\<forall>p\<in>set ps. fmt (startTime p) = Some (key p)"
  shows "dailyOf fmt ps = Inr (take 7 (map snd (foldKeyed key ps)))"
  by (simp add: dailyOf_def foldDaily_valid [OF assms])

lemma dailyOf_invalid:
  assumes "\<exists>p\<in>set ps. fmt (startTime p) = None"
  shows "dailyOf fmt ps = Inl RangeError"
  by (simp add: dailyOf_def foldDaily_invalid [OF assms])

subsection \<open>The fold of a list of dated periods\<close>

lemma foldKeyed_Nil: "foldKeyed key [] = []"
  by (simp add: foldKeyed_def)

lemma foldKeyed_snoc: "foldKeyed key (ps @ [p]) = updateDay (key p) (foldKeyed key ps) p"
  by (simp add: foldKeyed_def)

lemma keys_foldKeyed: "map fst (foldKeyed key ps) = rev (remdups (rev (map key ps)))"
proof (induction ps rule: rev_induct)
  case Nil
  show ?case by (simp add: foldKeyed_Nil)
next
  case (snoc p ps)
  have "set (map fst (foldKeyed key ps)) = key ` set ps"
    by (simp add: snoc.IH)
  then show ?case
    using snoc.IH by (simp add: foldKeyed_snoc keys_updateDay del: set_map)
qed

lemma remdups_map_inj:
  assumes "inj f"
  shows "remdups (map f xs) = map f (remdups xs)"
  using assms by (induction xs) (auto simp add: inj_image_mem_iff)

lemma keys_foldKeyed_Some:
  assumes "\<forall>p\<in>set ps. fmt (startTime p) = Some (key p)"
  shows "map Some (map fst (foldKeyed key ps)) =
           rev (remdups (rev (map (\<lambda>p. fmt (startTime p)) ps)))"
proof -
  have m: "map (\<lambda>p. fmt (startTime p)) ps = map Some (map key ps)"
    using assms by simp
  have "map Some (rev (remdups (rev (map key ps)))) =
          rev (map Some (remdups (rev (map key ps))))"
    by (simp only: rev_map)
  also have "\<dots> = rev (remdups (map Some (rev (map key ps))))"
    by (simp only: remdups_map_inj [OF inj_Some])
  also have "\<dots> = rev (remdups (rev (map Some (map key ps))))"
    by (simp only: rev_map)
  finally show ?thesis
    by (simp only: keys_foldKeyed m)
qed

lemma map_of_foldKeyed_None:
  "map_of (foldKeyed key ps) k = None \<longleftrightarrow> filter (\<lambda>p. key p = k) ps = []"
proof -
  have "map_of (foldKeyed key ps) k = None \<longleftrightarrow> k \<notin> set (map fst (foldKeyed key ps))"
    by (simp add: map_of_eq_None_iff)
  also have "\<dots> \<longleftrightarrow> k \<notin> key ` set ps"
    by (simp add: keys_foldKeyed)
  also have "\<dots> \<longleftrightarrow> filter (\<lambda>p. key p = k) ps = []"
    by (auto simp add: filter_empty_conv)
  finally show ?thesis .
qed

lemma spec_lastTemperature_snoc:
  "spec_lastTemperature fmt day k (ps @ [p]) =
     (if fmt (startTime p) = Some k \<and> isDaytime p = day then Some (temperature p)
      else spec_lastTemperature fmt day k ps)"
  by (simp add: spec_lastTemperature_def)

lemma spec_lastTemperature_absent:
  assumes "\<forall>p\<in>set ps. fmt (startTime p) \<noteq> Some k"
  shows "spec_lastTemperature fmt day k ps = None"
proof -
  have "filter (\<lambda>p. fmt (startTime p) = Some k \<and> isDaytime p = day) ps = []"
    using assms by (auto simp add: filter_empty_conv)
  then show ?thesis by (simp add: spec_lastTemperature_def)
qed

lemma foldKeyed_temperatures:
  assumes "\<forall>p\<in>set ps. fmt (startTime p) = Some (key p)"
    and "map_of (foldKeyed key ps) k = Some e"
  shows "highF e = spec_lastTemperature fmt True k ps \<and>
         lowF e = spec_lastTemperature fmt False k ps"
  using assms
proof (induction ps arbitrary: e rule: rev_induct)
  case Nil
  then show ?case by (simp add: foldKeyed_Nil)
next
  case (snoc p ps)
  have valid: "\<forall>q\<in>set ps. fmt (startTime q) = Some (key q)"
    and kp: "fmt (startTime p) = Some (key p)"
    using snoc.prems(1) by simp_all
  show ?case
  proof (cases "key p = k")
    case False
    then have "map_of (foldKeyed key ps) k = Some e"
      using snoc.prems(2) by (simp add: foldKeyed_snoc map_of_updateDay)
    then show ?thesis
      using snoc.IH [OF valid] False kp by (simp add: spec_lastTemperature_snoc)
  next
    case True
    show ?thesis
    proof (cases "map_of (foldKeyed key ps) k")
      case None
      then have e: "e = applyPeriod p (newEntry p)"
        using snoc.prems(2) True by (simp add: foldKeyed_snoc map_of_updateDay)
      have "filter (\<lambda>q. key q = k) ps = []"
        using None by (simp add: map_of_foldKeyed_None)
      then have "\<forall>q\<in>set ps. fmt (startTime q) \<noteq> Some k"
        using valid by (auto simp add: filter_empty_conv)
      then have "spec_lastTemperature fmt True k ps = None"
        "spec_lastTemperature fmt False k ps = None"
        by (simp_all add: spec_lastTemperature_absent)
      then show ?thesis
        using True kp
        by (simp add: e spec_lastTemperature_snoc applyPeriod_fields newEntry_fields)
    next
      case (Some e0)
      then have e: "e = applyPeriod p e0"
        using snoc.prems(2) True by (simp add: foldKeyed_snoc map_of_updateDay)
      show ?thesis
        using snoc.IH [OF valid Some] True kp
        by (simp add: e spec_lastTemperature_snoc applyPeriod_fields)
    qed
  qed
qed

lemma foldDaily_step:
  assumes "foldDaily fmt ps = Inr m" and "fmt (startTime p) = Some k"
  shows "foldDaily fmt (ps @ [p]) = Inr (updateDay k m p)"
  using assms by (simp add: foldDaily_def forEachPeriod_snoc foldPeriod_def)

lemma dailyOf_day_night:
  assumes "isDaytime p1" "\<not> isDaytime p2" "fmt (startTime p1) = Some k"
    "fmt (startTime p2) = Some k"
  shows "dailyOf fmt [p1, p2] =
           Inr [\<lparr>date = startTime p1, day_name = name p1, highF = Some (temperature p1),
                 lowF = Some (temperature p2),
                 summary = (if shortForecast p1 = [] then shortForecast p2 else shortForecast p1),
                 day_icon = icon p1\<rparr>]"
  using assms
  by (simp add: dailyOf_def foldDaily_def foldPeriod_def updateDay_def Let_def applyPeriod_def
      newEntry_def)

lemma dailyOf_sample: "dailyOf sampleDateKey (forecast_periods sampleForecast) = Inr sampleDaily"
  by (simp add: sampleForecast_def samplePeriod_def sampleDateKey_def dailyOf_def foldDaily_def
      foldPeriod_def updateDay_def Let_def applyPeriod_def newEntry_def sampleDaily_def)

subsection \<open>The aggregator once its requests are answered\<close>

lemma firstRejected_Nil: "firstRejected order [] = None"
  by (simp add: firstRejected_def List.map_filter_def)

lemma getWeatherByCoords_fetched:
  assumes "fetchJson (points_resource net)
             (NWS_BASE_URL @ ''/points/'' @ nts la @ '','' @ nts lo) = Inr points"
    and "fetchJson (forecast_resource net) (forecast points) = Inr fc"
    and "fetchJson (hourly_resource net) (forecastHourly points) = Inr hr"
    and "fetchJson (stations_resource net) (observationStations points) = Inr stations"
  shows "getWeatherByCoords nts fmt net la lo ov =
           (case firstStationId stations of
              None \<Rightarrow> assemble fmt la lo ov points fc hr None
            | Some stationId \<Rightarrow>
                (case fetchJson (observation_resource net)
                        (NWS_BASE_URL @ ''/stations/'' @ stationId @ ''/observations/latest'') of
                   Inl e \<Rightarrow> Inl e
                 | Inr observation \<Rightarrow> assemble fmt la lo ov points fc hr (Some observation)))"
  using assms
  by (simp add: getWeatherByCoords_def Let_def rejections_def firstRejected_Nil)

lemma assemble_valid:
  assumes "\<forall>p\<in>set (forecast_periods fc). fmt (startTime p) \<noteq> None"
  shows "\<exists>m. foldDaily fmt (forecast_periods fc) = Inr m \<and>
             assemble fmt la lo ov points fc hr obs =
               Inr (buildPayload la lo ov points fc hr obs (take 7 (map snd m)))"
proof -
  from foldDaily_valid [OF valid_the [OF assms]]
  have "foldDaily fmt (forecast_periods fc) =
          Inr (foldKeyed (\<lambda>p. the (fmt (startTime p))) (forecast_periods fc))" .
  then show ?thesis
    by (simp add: assemble_def dailyOf_def)
qed

lemma assemble_invalid:
  assumes "\<exists>p\<in>set (forecast_periods fc). fmt (startTime p) = None"
  shows "assemble fmt la lo ov points fc hr obs = Inl RangeError"
  by (simp add: assemble_def dailyOf_invalid [OF assms])

lemma buildPayload_daily_hourly:
  "daily (buildPayload la lo ov points fc hr obs d) = d"
  "hourly (buildPayload la lo ov points fc hr obs d) = hourlyOf (take 48 (hourly_periods hr))"
  by (simp_all add: buildPayload_def Let_def)

lemma fetch_sample:
  "fetchJson (points_resource (sampleNet st obs)) url = Inr samplePoints"
  "fetchJson (forecast_resource (sampleNet st obs)) url = Inr sampleForecast"
  "fetchJson (hourly_resource (sampleNet st obs)) url = Inr sampleHourly"
  "fetchJson (stations_resource (sampleNet st obs)) url = Inr \<lparr>features = st\<rparr>"
  by (simp_all add: fetchJson_def sampleNet_def ok_def)

lemma fetch_brokenNet:
  "fetchJson (points_resource brokenNet) url = Inr samplePoints"
  "fetchJson (forecast_resource brokenNet) url = Inr brokenForecast"
  "fetchJson (hourly_resource brokenNet) url = Inr sampleHourly"
  "fetchJson (stations_resource brokenNet) url = Inr \<lparr>features = []\<rparr>"
  by (simp_all add: fetchJson_def brokenNet_def sampleNet_def ok_def)

lemma sampleForecast_valid:
  "\<forall>p\<in>set (forecast_periods sampleForecast). sampleDateKey (startTime p) \<noteq> None"
  by (simp add: sampleForecast_def samplePeriod_def sampleDateKey_def)

lemma getWeatherByCoords_sampleNet:
  "getWeatherByCoords nts sampleDateKey (sampleNet [] obs) (Fin 42) (Fin (- 71)) None =
     Inr samplePayload"
  using getWeatherByCoords_fetched
          [where net = "sampleNet [] obs" and nts = nts and la = "Fin 42" and lo = "Fin (- 71)"
             and fmt = sampleDateKey and ov = None,
           OF fetch_sample(1) fetch_sample(2) fetch_sample(3) fetch_sample(4)]
  by (simp add: firstStationId_def assemble_def dailyOf_sample samplePayload_def)

section \<open>The observation step of the aggregator\<close>

lemma buildPayload_no_observation:
  "current (buildPayload la lo ov points fc hr None d) =
     \<lparr>temperatureF = (case take 48 (hourly_periods hr) of [] \<Rightarrow> None | p # _ \<Rightarrow> Some (temperature p)),
      feelsLikeF = None,
      condition = (case take 48 (hourly_periods hr) of [] \<Rightarrow> ''Current conditions'' | p # _ \<Rightarrow> shortForecast p),
      humidity = None, windSpeedMph = None, windGustMph = None, cur_windDirection = Null,
      dewPointF = None, pressureInHg = None, visibilityMiles = None, observedAt = None\<rparr>"
  by (simp add: buildPayload_def Let_def cToF_def orElse_def round_js_def mpsToMph_def
      degreesToCardinal_def pascalToInHg_def metersToMiles_def)

text \<open>
  C1 (as amended).  Once the point, forecast, hourly and station requests have succeeded:
  an empty station list means there is no station identifier.  Without a station
  identifier, and with every daily period's start time a date, the aggregator returns a
  payload whose current conditions come from the first hourly period (temperature and
  condition text, every other reading \<open>null\<close>); if some start time is no date, it fails
  with the formatter's \<open>RangeError\<close>.  With a station identifier, a failed request for
  its latest observation makes the aggregator fail with that request's error.
\<close>

theorem getWeatherByCoords_observation_step:
  assumes "fetchJson (points_resource net)
             (NWS_BASE_URL @ ''/points/'' @ nts la @ '','' @ nts lo) = Inr points"
    and "fetchJson (forecast_resource net) (forecast points) = Inr fc"
    and "fetchJson (hourly_resource net) (forecastHourly points) = Inr hr"
    and "fetchJson (stations_resource net) (observationStations points) = Inr stations"
  shows "(features stations = [] \<longrightarrow> firstStationId stations = None) \<and>
         (firstStationId stations = None \<and>
          (\<forall>p\<in>set (forecast_periods fc). fmt (startTime p) \<noteq> None) \<longrightarrow>
            (\<exists>payload. getWeatherByCoords nts fmt net la lo ov = Inr payload \<and>
               current payload =
                 \<lparr>temperatureF = (case take 48 (hourly_periods hr) of [] \<Rightarrow> None
                                   | p # _ \<Rightarrow> Some (temperature p)),
                  feelsLikeF = None,
                  condition = (case take 48 (hourly_periods hr) of [] \<Rightarrow> ''Current conditions''
                                | p # _ \<Rightarrow> shortForecast p),
                  humidity = None, windSpeedMph = None, windGustMph = None,
                  cur_windDirection = Null, dewPointF = None, pressureInHg = None,
                  visibilityMiles = None, observedAt = None\<rparr>)) \<and>
         (firstStationId stations = None \<and>
          (\<exists>p\<in>set (forecast_periods fc). fmt (startTime p) = None) \<longrightarrow>
            getWeatherByCoords nts fmt net la lo ov = Inl RangeError) \<and>
         (\<forall>stationId e.
            firstStationId stations = Some stationId \<and>
            fetchJson (observation_resource net)
              (NWS_BASE_URL @ ''/stations/'' @ stationId @ ''/observations/latest'') = Inl e \<longrightarrow>
            getWeatherByCoords nts fmt net la lo ov = Inl e)"
proof (intro conjI impI allI)
  assume "features stations = []"
  then show "firstStationId stations = None"
    by (simp add: firstStationId_def)
next
  assume h: "firstStationId stations = None \<and>
          (\<forall>p\<in>set (forecast_periods fc). fmt (startTime p) \<noteq> None)"
  then have v: "\<forall>p\<in>set (forecast_periods fc). fmt (startTime p) \<noteq> None"
    by simp
  from assemble_valid [OF v, of la lo ov points hr None]
  obtain m :: "(string \<times> Daily) list" where
    "assemble fmt la lo ov points fc hr None =
       Inr (buildPayload la lo ov points fc hr None (take 7 (map snd m)))"
    by blast
  then have "getWeatherByCoords nts fmt net la lo ov =
               Inr (buildPayload la lo ov points fc hr None (take 7 (map snd m)))"
    using h by (simp add: getWeatherByCoords_fetched [OF assms])
  then show "\<exists>payload. getWeatherByCoords nts fmt net la lo ov = Inr payload \<and>
               current payload =
                 \<lparr>temperatureF = (case take 48 (hourly_periods hr) of [] \<Rightarrow> None
                                   | p # _ \<Rightarrow> Some (temperature p)),
                  feelsLikeF = None,
                  condition = (case take 48 (hourly_periods hr) of [] \<Rightarrow> ''Current conditions''
                                | p # _ \<Rightarrow> shortForecast p),
                  humidity = None, windSpeedMph = None, windGustMph = None,
                  cur_windDirection = Null, dewPointF = None, pressureInHg = None,
                  visibilityMiles = None, observedAt = None\<rparr>"
    using buildPayload_no_observation by blast
next
  assume h: "firstStationId stations = None \<and>
          (\<exists>p\<in>set (forecast_periods fc). fmt (startTime p) = None)"
  then have "assemble fmt la lo ov points fc hr None = Inl RangeError"
    by (simp add: assemble_invalid)
  then show "getWeatherByCoords nts fmt net la lo ov = Inl RangeError"
    using h by (simp add: getWeatherByCoords_fetched [OF assms])
next
  fix stationId e
  assume "firstStationId stations = Some stationId \<and>
            fetchJson (observation_resource net)
              (NWS_BASE_URL @ ''/stations/'' @ stationId @ ''/observations/latest'') = Inl e"
  then show "getWeatherByCoords nts fmt net la lo ov = Inl e"
    by (simp add: getWeatherByCoords_fetched [OF assms])
qed

text \<open>
  The cases on the sample service: no station; no station and a daily period whose
  start time is \<open>soon\<close>; station \<open>KBOS\<close> whose observation request is answered with
  status 503.
\<close>

theorem getWeatherByCoords_observation_step_witness:
  "(\<exists>payload.
      getWeatherByCoords sampleNumberToString sampleDateKey (sampleNet [] NetworkFailure)
        (Fin 42) (Fin (- 71)) None = Inr payload \<and>
      temperatureF (current payload) = Some (Fin 71) \<and>
      condition (current payload) = ''Mostly Sunny'' \<and>
      observedAt (current payload) = None) \<and>
   getWeatherByCoords sampleNumberToString sampleDateKey brokenNet (Fin 42) (Fin (- 71)) None =
     Inl RangeError \<and>
   getWeatherByCoords sampleNumberToString sampleDateKey
     (sampleNet [sampleStation] (HttpResponse 503 None)) (Fin 42) (Fin (- 71)) None =
     Inl (RequestFailed 503 ''https://api.weather.gov/stations/KBOS/observations/latest'')"
proof (intro conjI)
  have none: "firstStationId \<lparr>features = []\<rparr> = None"
    by (simp add: firstStationId_def)
  show "\<exists>payload.
      getWeatherByCoords sampleNumberToString sampleDateKey (sampleNet [] NetworkFailure)
        (Fin 42) (Fin (- 71)) None = Inr payload \<and>
      temperatureF (current payload) = Some (Fin 71) \<and>
      condition (current payload) = ''Mostly Sunny'' \<and>
      observedAt (current payload) = None"
    using getWeatherByCoords_observation_step
            [where net = "sampleNet [] NetworkFailure" and nts = sampleNumberToString
               and la = "Fin 42" and lo = "Fin (- 71)" and fmt = sampleDateKey and ov = None,
             OF fetch_sample(1) fetch_sample(2) fetch_sample(3) fetch_sample(4)]
          none sampleForecast_valid
    by (auto simp add: sampleHourly_def sampleHour_def)
  have bad: "\<exists>p\<in>set (forecast_periods brokenForecast). sampleDateKey (startTime p) = None"
    by (simp add: brokenForecast_def samplePeriod_def sampleDateKey_def)
  show "getWeatherByCoords sampleNumberToString sampleDateKey brokenNet (Fin 42) (Fin (- 71)) None =
          Inl RangeError"
    using getWeatherByCoords_observation_step
            [where net = brokenNet and nts = sampleNumberToString
               and la = "Fin 42" and lo = "Fin (- 71)" and fmt = sampleDateKey and ov = None,
             OF fetch_brokenNet(1) fetch_brokenNet(2) fetch_brokenNet(3) fetch_brokenNet(4)]
          none bad
    by blast
  have some: "firstStationId \<lparr>features = [sampleStation]\<rparr> = Some ''KBOS''"
    by (simp add: firstStationId_def sampleStation_def)
  have obs: "fetchJson (observation_resource (sampleNet [sampleStation] (HttpResponse 503 None)))
               (NWS_BASE_URL @ ''/stations/'' @ ''KBOS'' @ ''/observations/latest'') =
             Inl (RequestFailed 503 ''https://api.weather.gov/stations/KBOS/observations/latest'')"
    by (simp add: fetchJson_def sampleNet_def ok_def NWS_BASE_URL_def)
  show "getWeatherByCoords sampleNumberToString sampleDateKey
     (sampleNet [sampleStation] (HttpResponse 503 None)) (Fin 42) (Fin (- 71)) None =
     Inl (RequestFailed 503 ''https://api.weather.gov/stations/KBOS/observations/latest'')"
    using getWeatherByCoords_observation_step
            [where net = "sampleNet [sampleStation] (HttpResponse 503 None)"
               and nts = sampleNumberToString and la = "Fin 42" and lo = "Fin (- 71)"
               and fmt = sampleDateKey and ov = None,
             OF fetch_sample(1) fetch_sample(2) fetch_sample(3) fetch_sample(4)]
          some obs
    by blast
qed

text \<open>
  C1 as stated fails: with a station in the list and its observation request answered
  with status 503, the aggregator returns no payload but the error of that request.
\<close>

theorem getWeatherByCoords_observation_failure_counterexample:
  "getWeatherByCoords sampleNumberToString sampleDateKey
     (sampleNet [sampleStation] (HttpResponse 503 None)) (Fin 42) (Fin (- 71)) None =
   Inl (RequestFailed 503 ''https://api.weather.gov/stations/KBOS/observations/latest'')"
  by (simp add: getWeatherByCoords_def fetchJson_def sampleNet_def ok_def firstStationId_def
      NWS_BASE_URL_def samplePoints_def sampleStation_def Let_def rejections_def
      firstRejected_Nil)

section \<open>The daily and hourly parts of the payload\<close>

lemma aggregator_output:
  assumes "fetchJson (points_resource net)
             (NWS_BASE_URL @ ''/points/'' @ nts la @ '','' @ nts lo) = Inr points"
    and "fetchJson (forecast_resource net) (forecast points) = Inr fc"
    and "fetchJson (hourly_resource net) (forecastHourly points) = Inr hr"
    and "fetchJson (stations_resource net) (observationStations points) = Inr stations"
    and "firstStationId stations = None \<or>
         (\<exists>stationId observation.
            firstStationId stations = Some stationId \<and>
            fetchJson (observation_resource net)
              (NWS_BASE_URL @ ''/stations/'' @ stationId @ ''/observations/latest'') =
              Inr observation)"
    and "\<forall>p\<in>set (forecast_periods fc). fmt (startTime p) \<noteq> None"
  shows "\<exists>payload m.
           getWeatherByCoords nts fmt net la lo ov = Inr payload \<and>
           foldDaily fmt (forecast_periods fc) = Inr m \<and>
           daily payload = take 7 (map snd m) \<and>
           hourly payload = hourlyOf (take 48 (hourly_periods hr))"
proof -
  from assms(5) obtain obs where
    g: "getWeatherByCoords nts fmt net la lo ov = assemble fmt la lo ov points fc hr obs"
    by (auto simp add: getWeatherByCoords_fetched [OF assms(1-4)])
  from assemble_valid [OF assms(6), of la lo ov points hr obs] obtain m where
    m: "foldDaily fmt (forecast_periods fc) = Inr m"
    "assemble fmt la lo ov points fc hr obs =
       Inr (buildPayload la lo ov points fc hr obs (take 7 (map snd m)))"
    by blast
  show ?thesis
    by (rule exI [of _ "buildPayload la lo ov points fc hr obs (take 7 (map snd m))"],
        rule exI [of _ m])
       (simp add: g m buildPayload_daily_hourly)
qed

lemma aggregator_rejects:
  assumes "fetchJson (points_resource net)
             (NWS_BASE_URL @ ''/points/'' @ nts la @ '','' @ nts lo) = Inr points"
    and "fetchJson (forecast_resource net) (forecast points) = Inr fc"
    and "fetchJson (hourly_resource net) (forecastHourly points) = Inr hr"
    and "fetchJson (stations_resource net) (observationStations points) = Inr stations"
    and "firstStationId stations = None \<or>
         (\<exists>stationId observation.
            firstStationId stations = Some stationId \<and>
            fetchJson (observation_resource net)
              (NWS_BASE_URL @ ''/stations/'' @ stationId @ ''/observations/latest'') =
              Inr observation)"
    and "\<exists>p\<in>set (forecast_periods fc). fmt (startTime p) = None"
  shows "getWeatherByCoords nts fmt net la lo ov = Inl RangeError"
proof -
  from assms(5) obtain obs where
    "getWeatherByCoords nts fmt net la lo ov = assemble fmt la lo ov points fc hr obs"
    by (auto simp add: getWeatherByCoords_fetched [OF assms(1-4)])
  then show ?thesis
    by (simp add: assemble_invalid [OF assms(6)])
qed

lemma fold_of_dated:
  assumes "\<forall>p\<in>set ps. fmt (startTime p) \<noteq> None"
  shows "\<exists>m. foldDaily fmt ps = Inr m \<and>
             map Some (map fst m) = rev (remdups (rev (map (\<lambda>p. fmt (startTime p)) ps))) \<and>
             distinct (map fst m) \<and>
             (\<forall>k e. map_of m k = Some e \<longrightarrow>
                highF e = spec_lastTemperature fmt True k ps \<and>
                lowF e = spec_lastTemperature fmt False k ps)"
proof -
  let ?key = "\<lambda>p. the (fmt (startTime p))"
  note v = valid_the [OF assms]
  have "foldDaily fmt ps = Inr (foldKeyed ?key ps)"
    using v by (rule foldDaily_valid)
  moreover have "map Some (map fst (foldKeyed ?key ps)) =
                   rev (remdups (rev (map (\<lambda>p. fmt (startTime p)) ps)))"
    using v by (rule keys_foldKeyed_Some)
  moreover have "distinct (map fst (foldKeyed ?key ps))"
    by (simp add: keys_foldKeyed)
  moreover have "\<forall>k e. map_of (foldKeyed ?key ps) k = Some e \<longrightarrow>
                   highF e = spec_lastTemperature fmt True k ps \<and>
                   lowF e = spec_lastTemperature fmt False k ps"
    using foldKeyed_temperatures [OF v] by blast
  ultimately show ?thesis by blast
qed

text \<open>
  C7 (as amended).  When the requests of the aggregator have succeeded (with no station,
  or with a station whose observation was fetched) and every daily period's start time is
  a date, the aggregator returns a payload whose daily part is the first seven entries of
  the fold of the fetched periods and whose hourly part is made of the first 48 hourly
  periods.  For every list of periods whose start times are dates, the fold has one entry
  per date key, in the order in which the keys first occur, and in the entry of a key the
  high is the temperature of the last daytime period with that key and the low that of
  the last nighttime period (\<open>null\<close> when there is none).  Each period updates the entry
  of its day (a new entry if the day is new) and no other: a daytime period sets high,
  icon and summary and leaves the low; a nighttime period sets the low, leaves high and
  icon, and sets the summary only if it is empty.  A daytime and a nighttime period with
  one date key fold to one entry with the day's temperature as high and the night's as
  low.  A start time that is no date makes the fold, and with it the aggregator, fail
  with \<open>RangeError\<close>.
\<close>

theorem daily_folding:
  "(fetchJson (points_resource net)
      (NWS_BASE_URL @ ''/points/'' @ nts la @ '','' @ nts lo) = Inr points \<and>
    fetchJson (forecast_resource net) (forecast points) = Inr fc \<and>
    fetchJson (hourly_resource net) (forecastHourly points) = Inr hr \<and>
    fetchJson (stations_resource net) (observationStations points) = Inr stations \<and>
    (firstStationId stations = None \<or>
     (\<exists>stationId observation.
        firstStationId stations = Some stationId \<and>
        fetchJson (observation_resource net)
          (NWS_BASE_URL @ ''/stations/'' @ stationId @ ''/observations/latest'') =
          Inr observation)) \<longrightarrow>
      ((\<forall>p\<in>set (forecast_periods fc). fmt (startTime p) \<noteq> None) \<longrightarrow>
         (\<exists>payload m.
            getWeatherByCoords nts fmt net la lo ov = Inr payload \<and>
            foldDaily fmt (forecast_periods fc) = Inr m \<and>
            daily payload = take 7 (map snd m) \<and>
            hourly payload = hourlyOf (take 48 (hourly_periods hr)) \<and>
            length (daily payload) \<le> 7 \<and> length (hourly payload) \<le> 48)) \<and>
      ((\<exists>p\<in>set (forecast_periods fc). fmt (startTime p) = None) \<longrightarrow>
         getWeatherByCoords nts fmt net la lo ov = Inl RangeError)) \<and>
   ((\<forall>p\<in>set ps. fmt (startTime p) \<noteq> None) \<longrightarrow>
      (\<exists>m. foldDaily fmt ps = Inr m \<and>
           map Some (map fst m) = rev (remdups (rev (map (\<lambda>p. fmt (startTime p)) ps))) \<and>
           distinct (map fst m) \<and>
           (\<forall>k e. map_of m k = Some e \<longrightarrow>
              highF e = spec_lastTemperature fmt True k ps \<and>
              lowF e = spec_lastTemperature fmt False k ps))) \<and>
   ((\<exists>p\<in>set ps. fmt (startTime p) = None) \<longrightarrow> foldDaily fmt ps = Inl RangeError) \<and>
   (foldDaily fmt ps = Inr m0 \<and> fmt (startTime p) = Some k \<longrightarrow>
      (\<exists>m1. foldDaily fmt (ps @ [p]) = Inr m1 \<and>
            map_of m1 k =
              Some (applyPeriod p (case map_of m0 k of None \<Rightarrow> newEntry p | Some e \<Rightarrow> e)) \<and>
            (\<forall>k'. k' \<noteq> k \<longrightarrow> map_of m1 k' = map_of m0 k'))) \<and>
   (isDaytime p \<longrightarrow>
      highF (applyPeriod p e) = Some (temperature p) \<and> day_icon (applyPeriod p e) = icon p \<and>
      summary (applyPeriod p e) = shortForecast p \<and> lowF (applyPeriod p e) = lowF e) \<and>
   (\<not> isDaytime p \<longrightarrow>
      lowF (applyPeriod p e) = Some (temperature p) \<and> highF (applyPeriod p e) = highF e \<and>
      day_icon (applyPeriod p e) = day_icon e \<and>
      summary (applyPeriod p e) = (if summary e = [] then shortForecast p else summary e)) \<and>
   (isDaytime p1 \<and> \<not> isDaytime p2 \<and> fmt (startTime p1) = Some k1 \<and>
    fmt (startTime p2) = Some k1 \<longrightarrow>
      dailyOf fmt [p1, p2] =
        Inr [\<lparr>date = startTime p1, day_name = name p1, highF = Some (temperature p1),
              lowF = Some (temperature p2),
              summary = (if shortForecast p1 = [] then shortForecast p2 else shortForecast p1),
              day_icon = icon p1\<rparr>])"
proof (intro conjI impI)
  assume f: "fetchJson (points_resource net)
      (NWS_BASE_URL @ ''/points/'' @ nts la @ '','' @ nts lo) = Inr points \<and>
    fetchJson (forecast_resource net) (forecast points) = Inr fc \<and>
    fetchJson (hourly_resource net) (forecastHourly points) = Inr hr \<and>
    fetchJson (stations_resource net) (observationStations points) = Inr stations \<and>
    (firstStationId stations = None \<or>
     (\<exists>stationId observation.
        firstStationId stations = Some stationId \<and>
        fetchJson (observation_resource net)
          (NWS_BASE_URL @ ''/stations/'' @ stationId @ ''/observations/latest'') =
          Inr observation))"
  {
    assume v: "\<forall>p\<in>set (forecast_periods fc). fmt (startTime p) \<noteq> None"
    from f v obtain payload m where
      r: "getWeatherByCoords nts fmt net la lo ov = Inr payload"
         "foldDaily fmt (forecast_periods fc) = Inr m"
         "daily payload = take 7 (map snd m)"
         "hourly payload = hourlyOf (take 48 (hourly_periods hr))"
      using aggregator_output [of net nts la lo points fc hr stations fmt ov] by blast
    have "length (daily payload) \<le> 7" "length (hourly payload) \<le> 48"
      by (simp_all add: r hourlyOf_def)
    with r show "\<exists>payload m.
            getWeatherByCoords nts fmt net la lo ov = Inr payload \<and>
            foldDaily fmt (forecast_periods fc) = Inr m \<and>
            daily payload = take 7 (map snd m) \<and>
            hourly payload = hourlyOf (take 48 (hourly_periods hr)) \<and>
            length (daily payload) \<le> 7 \<and> length (hourly payload) \<le> 48"
      by blast
  }
  {
    assume "\<exists>p\<in>set (forecast_periods fc). fmt (startTime p) = None"
    with f show "getWeatherByCoords nts fmt net la lo ov = Inl RangeError"
      using aggregator_rejects [of net nts la lo points fc hr stations fmt ov] by blast
  }
next
  assume "\<forall>p\<in>set ps. fmt (startTime p) \<noteq> None"
  then show "\<exists>m. foldDaily fmt ps = Inr m \<and>
           map Some (map fst m) = rev (remdups (rev (map (\<lambda>p. fmt (startTime p)) ps))) \<and>
           distinct (map fst m) \<and>
           (\<forall>k e. map_of m k = Some e \<longrightarrow>
              highF e = spec_lastTemperature fmt True k ps \<and>
              lowF e = spec_lastTemperature fmt False k ps)"
    by (rule fold_of_dated)
next
  assume "\<exists>p\<in>set ps. fmt (startTime p) = None"
  then show "foldDaily fmt ps = Inl RangeError"
    by (rule foldDaily_invalid)
next
  assume "foldDaily fmt ps = Inr m0 \<and> fmt (startTime p) = Some k"
  then have "foldDaily fmt (ps @ [p]) = Inr (updateDay k m0 p)"
    by (simp add: foldDaily_step)
  then show "\<exists>m1. foldDaily fmt (ps @ [p]) = Inr m1 \<and>
            map_of m1 k =
              Some (applyPeriod p (case map_of m0 k of None \<Rightarrow> newEntry p | Some e \<Rightarrow> e)) \<and>
            (\<forall>k'. k' \<noteq> k \<longrightarrow> map_of m1 k' = map_of m0 k')"
    by (simp add: map_of_updateDay)
next
  assume "isDaytime p"
  then show "highF (applyPeriod p e) = Some (temperature p)" "day_icon (applyPeriod p e) = icon p"
    "summary (applyPeriod p e) = shortForecast p" "lowF (applyPeriod p e) = lowF e"
    by (simp_all add: applyPeriod_fields)
next
  assume "\<not> isDaytime p"
  then show "lowF (applyPeriod p e) = Some (temperature p)" "highF (applyPeriod p e) = highF e"
    "day_icon (applyPeriod p e) = day_icon e"
    "summary (applyPeriod p e) = (if summary e = [] then shortForecast p else summary e)"
    by (simp_all add: applyPeriod_fields)
next
  assume "isDaytime p1 \<and> \<not> isDaytime p2 \<and> fmt (startTime p1) = Some k1 \<and>
    fmt (startTime p2) = Some k1"
  then show "dailyOf fmt [p1, p2] =
        Inr [\<lparr>date = startTime p1, day_name = name p1, highF = Some (temperature p1),
              lowF = Some (temperature p2),
              summary = (if shortForecast p1 = [] then shortForecast p2 else shortForecast p1),
              day_icon = icon p1\<rparr>]"
    by (simp add: dailyOf_day_night)
qed

lemma foldDaily_sample:
  "foldDaily sampleDateKey (forecast_periods sampleForecast) =
     Inr [(''2024-05-01'',
           \<lparr>date = ''2024-05-01T06:00'', day_name = ''Today'', highF = Some (Fin 80),
            lowF = Some (Fin 60), summary = ''Sunny'', day_icon = ''icon:Sunny''\<rparr>)]"
  by (simp add: sampleForecast_def samplePeriod_def sampleDateKey_def foldDaily_def
      foldPeriod_def updateDay_def Let_def applyPeriod_def newEntry_def)

text \<open>
  The sample forecast has a daytime period at 80 degrees and a nighttime period at 60
  degrees on one day.  The aggregator returns a payload whose daily part is the single
  entry with high 80 and low 60.  With a period whose start time is \<open>soon\<close>, the fold
  and the aggregator fail.
\<close>

theorem daily_folding_witness:
  "(\<exists>payload.
      getWeatherByCoords sampleNumberToString sampleDateKey (sampleNet [] NetworkFailure)
        (Fin 42) (Fin (- 71)) None = Inr payload \<and>
      daily payload = sampleDaily \<and> length (hourly payload) \<le> 48) \<and>
   getWeatherByCoords sampleNumberToString sampleDateKey brokenNet (Fin 42) (Fin (- 71)) None =
     Inl RangeError \<and>
   foldDaily sampleDateKey (forecast_periods brokenForecast) = Inl RangeError \<and>
   spec_lastTemperature sampleDateKey True ''2024-05-01'' (forecast_periods sampleForecast) =
     Some (Fin 80) \<and>
   spec_lastTemperature sampleDateKey False ''2024-05-01'' (forecast_periods sampleForecast) =
     Some (Fin 60) \<and>
   (\<exists>m1. foldDaily sampleDateKey
            ([samplePeriod ''Today'' ''2024-05-01T06:00'' True 80 ''Sunny''] @
             [samplePeriod ''Tonight'' ''2024-05-01T18:00'' False 60 ''Clear'']) = Inr m1 \<and>
         map_option lowF (map_of m1 ''2024-05-01'') = Some (Some (Fin 60)) \<and>
         map_option highF (map_of m1 ''2024-05-01'') = Some (Some (Fin 80))) \<and>
   dailyOf sampleDateKey
     [samplePeriod ''Today'' ''2024-05-01T06:00'' True 80 ''Sunny'',
      samplePeriod ''Tonight'' ''2024-05-01T18:00'' False 60 ''Clear''] =
     Inr sampleDaily"
proof (intro conjI)
  let ?day = "samplePeriod ''Today'' ''2024-05-01T06:00'' True 80 ''Sunny''"
  let ?night = "samplePeriod ''Tonight'' ''2024-05-01T18:00'' False 60 ''Clear''"
  let ?entry = "\<lparr>date = ''2024-05-01T06:00'', day_name = ''Today'', highF = Some (Fin 80),
                 lowF = Some (Fin 60), summary = ''Sunny'', day_icon = ''icon:Sunny''\<rparr>"
  let ?half = "\<lparr>date = ''2024-05-01T06:00'', day_name = ''Today'', highF = Some (Fin 80),
                lowF = None, summary = ''Sunny'', day_icon = ''icon:Sunny''\<rparr>"
  note t = daily_folding
             [where nts = sampleNumberToString and fmt = sampleDateKey
                and net = "sampleNet [] NetworkFailure" and la = "Fin 42" and lo = "Fin (- 71)"
                and ov = None and points = samplePoints and fc = sampleForecast
                and hr = sampleHourly and stations = "\<lparr>features = []\<rparr>"
                and ps = "forecast_periods sampleForecast"
                and ?p1.0 = ?day and ?p2.0 = ?night and ?k1.0 = "''2024-05-01''"]
  note b = daily_folding
             [where nts = sampleNumberToString and fmt = sampleDateKey
                and net = brokenNet and la = "Fin 42" and lo = "Fin (- 71)"
                and ov = None and points = samplePoints and fc = brokenForecast
                and hr = sampleHourly and stations = "\<lparr>features = []\<rparr>"
                and ps = "forecast_periods brokenForecast"]
  note s = daily_folding
             [where fmt = sampleDateKey and ps = "[?day]" and ?m0.0 = "[(''2024-05-01'', ?half)]"
                and p = ?night and k = "''2024-05-01''" and e = ?half]
  have none: "firstStationId \<lparr>features = []\<rparr> = None"
    by (simp add: firstStationId_def)
  have bad: "\<exists>p\<in>set (forecast_periods brokenForecast). sampleDateKey (startTime p) = None"
    by (simp add: brokenForecast_def samplePeriod_def sampleDateKey_def)
  have ex: "\<exists>payload m.
      getWeatherByCoords sampleNumberToString sampleDateKey (sampleNet [] NetworkFailure)
        (Fin 42) (Fin (- 71)) None = Inr payload \<and>
      foldDaily sampleDateKey (forecast_periods sampleForecast) = Inr m \<and>
      daily payload = take 7 (map snd m) \<and>
      hourly payload = hourlyOf (take 48 (hourly_periods sampleHourly)) \<and>
      length (daily payload) \<le> 7 \<and> length (hourly payload) \<le> 48"
    apply (rule t [THEN conjunct1, THEN mp, THEN conjunct1, THEN mp])
     apply (simp add: fetch_sample none)
    apply (rule sampleForecast_valid)
    done
  then obtain payload m where
    r: "getWeatherByCoords sampleNumberToString sampleDateKey (sampleNet [] NetworkFailure)
          (Fin 42) (Fin (- 71)) None = Inr payload"
       "foldDaily sampleDateKey (forecast_periods sampleForecast) = Inr m"
       "daily payload = take 7 (map snd m)" "length (hourly payload) \<le> 48"
    by (elim exE conjE)
  have "daily payload = sampleDaily"
    using r(2,3) by (auto simp add: foldDaily_sample sampleDaily_def)
  then show "\<exists>payload.
      getWeatherByCoords sampleNumberToString sampleDateKey (sampleNet [] NetworkFailure)
        (Fin 42) (Fin (- 71)) None = Inr payload \<and>
      daily payload = sampleDaily \<and> length (hourly payload) \<le> 48"
    using r(1,4) by (intro exI [of _ payload] conjI)
  show "getWeatherByCoords sampleNumberToString sampleDateKey brokenNet (Fin 42) (Fin (- 71)) None =
          Inl RangeError"
    apply (rule b [THEN conjunct1, THEN mp, THEN conjunct2, THEN mp])
     apply (simp add: fetch_brokenNet none)
    apply (rule bad)
    done
  show "foldDaily sampleDateKey (forecast_periods brokenForecast) = Inl RangeError"
    by (rule b [THEN conjunct2, THEN conjunct2, THEN conjunct1, THEN mp, OF bad])
  from t [THEN conjunct2, THEN conjunct1, THEN mp, OF sampleForecast_valid]
  obtain m2 where
    m2: "foldDaily sampleDateKey (forecast_periods sampleForecast) = Inr m2"
        "\<forall>k e. map_of m2 k = Some e \<longrightarrow>
           highF e = spec_lastTemperature sampleDateKey True k (forecast_periods sampleForecast) \<and>
           lowF e = spec_lastTemperature sampleDateKey False k (forecast_periods sampleForecast)"
    by (elim exE conjE)
  have me: "map_of m2 ''2024-05-01'' = Some ?entry"
    using m2(1) by (auto simp add: foldDaily_sample)
  note hl = m2(2) [rule_format, OF me]
  from hl show "spec_lastTemperature sampleDateKey True ''2024-05-01''
                  (forecast_periods sampleForecast) = Some (Fin 80)"
    by simp
  from hl show "spec_lastTemperature sampleDateKey False ''2024-05-01''
                  (forecast_periods sampleForecast) = Some (Fin 60)"
    by simp
  have st: "foldDaily sampleDateKey [?day] = Inr [(''2024-05-01'', ?half)] \<and>
            sampleDateKey (startTime ?night) = Some ''2024-05-01''"
    by (simp add: samplePeriod_def sampleDateKey_def foldDaily_def foldPeriod_def updateDay_def
        Let_def applyPeriod_def newEntry_def)
  have nn: "\<not> isDaytime ?night"
    by (simp add: samplePeriod_def)
  note step = s [THEN conjunct2, THEN conjunct2, THEN conjunct2, THEN conjunct1, THEN mp, OF st]
  note night = s [THEN conjunct2, THEN conjunct2, THEN conjunct2, THEN conjunct2,
                  THEN conjunct2, THEN conjunct1, THEN mp, OF nn]
  from step obtain m1 where
    m1: "foldDaily sampleDateKey ([?day] @ [?night]) = Inr m1"
        "map_of m1 ''2024-05-01'' =
           Some (applyPeriod ?night
                   (case map_of [(''2024-05-01'', ?half)] ''2024-05-01'' of
                      None \<Rightarrow> newEntry ?night | Some e \<Rightarrow> e))"
    by (elim exE conjE)
  have "map_of m1 ''2024-05-01'' = Some (applyPeriod ?night ?half)"
    using m1(2) by simp
  moreover have "lowF (applyPeriod ?night ?half) = Some (Fin 60)"
    "highF (applyPeriod ?night ?half) = Some (Fin 80)"
    using night by (simp_all add: samplePeriod_def)
  ultimately show "\<exists>m1. foldDaily sampleDateKey ([?day] @ [?night]) = Inr m1 \<and>
         map_option lowF (map_of m1 ''2024-05-01'') = Some (Some (Fin 60)) \<and>
         map_option highF (map_of m1 ''2024-05-01'') = Some (Some (Fin 80))"
    using m1(1) by (intro exI [of _ m1]) simp
  have d: "isDaytime ?day \<and> \<not> isDaytime ?night \<and>
           sampleDateKey (startTime ?day) = Some ''2024-05-01'' \<and>
           sampleDateKey (startTime ?night) = Some ''2024-05-01''"
    by (simp add: samplePeriod_def sampleDateKey_def)
  note ex2 = t [THEN conjunct2, THEN conjunct2, THEN conjunct2, THEN conjunct2, THEN conjunct2,
               THEN conjunct2, THEN mp, OF d]
  then show "dailyOf sampleDateKey [?day, ?night] = Inr sampleDaily"
    by (simp add: sampleDaily_def) (simp add: samplePeriod_def)
qed

text \<open>
  C7 as stated fails for a period list with a start time that is no date: the sample
  formatter, like \<open>Intl.DateTimeFormat\<close>, has no date key for \<open>soon\<close>, and the
  aggregator, all of whose requests succeed, returns no entries but \<open>RangeError\<close>.
\<close>

theorem daily_folding_invalid_date_counterexample:
  "sampleDateKey ''soon'' = None \<and>
   getWeatherByCoords sampleNumberToString sampleDateKey brokenNet (Fin 42) (Fin (- 71)) None =
     Inl RangeError"
  by (simp add: sampleDateKey_def getWeatherByCoords_def fetchJson_def brokenNet_def
      sampleNet_def ok_def firstStationId_def Let_def rejections_def firstRejected_Nil
      assemble_def dailyOf_def foldDaily_def foldPeriod_def brokenForecast_def samplePeriod_def)

section \<open>The retry wrapper\<close>

lemma isCall_callEffect: "isCall (callEffect la lo)"
  by (simp add: callEffect_def split: option.splits)

lemma calls_sleep: "calls (sleep ms w) = calls w"
  by (simp add: calls_def sleep_def)

lemma upstream_sleep: "upstream (sleep ms w) = upstream w"
  by (simp add: sleep_def)

lemma attempt_eq:
  "attempt nts fmt la lo w =
     (aggregate nts fmt la lo (upstream w (calls w)), w\<lparr>trace := trace w @ [callEffect la lo]\<rparr>)"
  by (simp add: attempt_def)

lemma calls_after_call: "calls (w\<lparr>trace := trace w @ [callEffect la lo]\<rparr>) = Suc (calls w)"
  by (simp add: calls_def isCall_callEffect)

lemma fetchWithRetry_unfold:
  "fetchWithRetry nts fmt la lo w =
     (case aggregate nts fmt la lo (upstream w (calls w)) of
        Inr payload \<Rightarrow> (Inr payload, w\<lparr>trace := trace w @ [callEffect la lo]\<rparr>)
      | Inl e0 \<Rightarrow>
          (case aggregate nts fmt la lo (upstream w (calls w + 1)) of
             Inr payload \<Rightarrow>
               (Inr payload,
                w\<lparr>trace := trace w @ [callEffect la lo, Sleep 300, callEffect la lo]\<rparr>)
           | Inl e1 \<Rightarrow>
               (case aggregate nts fmt la lo (upstream w (calls w + 2)) of
                  Inr payload \<Rightarrow>
                    (Inr payload,
                     w\<lparr>trace := trace w @ [callEffect la lo, Sleep 300, callEffect la lo,
                                            Sleep 800, callEffect la lo]\<rparr>)
                | Inl e2 \<Rightarrow>
                    (Inl (Some e2),
                     w\<lparr>trace := trace w @ [callEffect la lo, Sleep 300, callEffect la lo,
                                            Sleep 800, callEffect la lo]\<rparr>))))"
  by (simp add: fetchWithRetry_def attempt_def sleep_def calls_def isCall_callEffect
      split: sum.splits)

text \<open>
  C5.  The wrapper calls the aggregator at most three times: at once, after a sleep of
  300 ms, and after a further sleep of 800 ms.  It returns the first success and stops;
  when the third attempt fails too, it throws the error of that attempt.  The equation
  gives the result and the trace of effects in each of the four cases; in particular,
  two failures followed by a success make exactly three calls and return the success.
\<close>

theorem fetchWithRetry_schedule:
  "fetchWithRetry nts fmt la lo w =
     (case aggregate nts fmt la lo (upstream w (calls w)) of
        Inr payload \<Rightarrow> (Inr payload, w\<lparr>trace := trace w @ [callEffect la lo]\<rparr>)
      | Inl e0 \<Rightarrow>
          (case aggregate nts fmt la lo (upstream w (calls w + 1)) of
             Inr payload \<Rightarrow>
               (Inr payload,
                w\<lparr>trace := trace w @ [callEffect la lo, Sleep 300, callEffect la lo]\<rparr>)
           | Inl e1 \<Rightarrow>
               (case aggregate nts fmt la lo (upstream w (calls w + 2)) of
                  Inr payload \<Rightarrow>
                    (Inr payload,
                     w\<lparr>trace := trace w @ [callEffect la lo, Sleep 300, callEffect la lo,
                                            Sleep 800, callEffect la lo]\<rparr>)
                | Inl e2 \<Rightarrow>
                    (Inl (Some e2),
                     w\<lparr>trace := trace w @ [callEffect la lo, Sleep 300, callEffect la lo,
                                            Sleep 800, callEffect la lo]\<rparr>)))) \<and>
   calls (snd (fetchWithRetry nts fmt la lo w)) \<le> calls w + 3 \<and>
   (aggregate nts fmt la lo (upstream w (calls w)) = Inl e0 \<and>
    aggregate nts fmt la lo (upstream w (calls w + 1)) = Inl e1 \<and>
    aggregate nts fmt la lo (upstream w (calls w + 2)) = Inr payload \<longrightarrow>
    fst (fetchWithRetry nts fmt la lo w) = Inr payload \<and>
    calls (snd (fetchWithRetry nts fmt la lo w)) = calls w + 3) \<and>
   (aggregate nts fmt la lo (upstream w (calls w)) = Inl e0 \<and>
    aggregate nts fmt la lo (upstream w (calls w + 1)) = Inl e1 \<and>
    aggregate nts fmt la lo (upstream w (calls w + 2)) = Inl e2 \<longrightarrow>
    fst (fetchWithRetry nts fmt la lo w) = Inl (Some e2) \<and>
    calls (snd (fetchWithRetry nts fmt la lo w)) = calls w + 3)"
proof (intro conjI impI)
  show "fetchWithRetry nts fmt la lo w =
     (case aggregate nts fmt la lo (upstream w (calls w)) of
        Inr payload \<Rightarrow> (Inr payload, w\<lparr>trace := trace w @ [callEffect la lo]\<rparr>)
      | Inl e0 \<Rightarrow>
          (case aggregate nts fmt la lo (upstream w (calls w + 1)) of
             Inr payload \<Rightarrow>
               (Inr payload,
                w\<lparr>trace := trace w @ [callEffect la lo, Sleep 300, callEffect la lo]\<rparr>)
           | Inl e1 \<Rightarrow>
               (case aggregate nts fmt la lo (upstream w (calls w + 2)) of
                  Inr payload \<Rightarrow>
                    (Inr payload,
                     w\<lparr>trace := trace w @ [callEffect la lo, Sleep 300, callEffect la lo,
                                            Sleep 800, callEffect la lo]\<rparr>)
                | Inl e2 \<Rightarrow>
                    (Inl (Some e2),
                     w\<lparr>trace := trace w @ [callEffect la lo, Sleep 300, callEffect la lo,
                                            Sleep 800, callEffect la lo]\<rparr>))))"
    by (rule fetchWithRetry_unfold)
  show "calls (snd (fetchWithRetry nts fmt la lo w)) \<le> calls w + 3"
    by (simp add: fetchWithRetry_unfold calls_def isCall_callEffect split: sum.splits)
next
  assume h: "aggregate nts fmt la lo (upstream w (calls w)) = Inl e0 \<and>
    aggregate nts fmt la lo (upstream w (calls w + 1)) = Inl e1 \<and>
    aggregate nts fmt la lo (upstream w (calls w + 2)) = Inr payload"
  then show "fst (fetchWithRetry nts fmt la lo w) = Inr payload"
    by (simp add: fetchWithRetry_unfold)
  from h show "calls (snd (fetchWithRetry nts fmt la lo w)) = calls w + 3"
    by (simp add: fetchWithRetry_unfold calls_def isCall_callEffect)
next
  assume h: "aggregate nts fmt la lo (upstream w (calls w)) = Inl e0 \<and>
    aggregate nts fmt la lo (upstream w (calls w + 1)) = Inl e1 \<and>
    aggregate nts fmt la lo (upstream w (calls w + 2)) = Inl e2"
  then show "fst (fetchWithRetry nts fmt la lo w) = Inl (Some e2)"
    by (simp add: fetchWithRetry_unfold)
  from h show "calls (snd (fetchWithRetry nts fmt la lo w)) = calls w + 3"
    by (simp add: fetchWithRetry_unfold calls_def isCall_callEffect)
qed

lemma aggregate_downNet:
  "aggregate sampleNumberToString fmt (Some la) (Some lo) downNet =
     Inl (RequestFailed 503 ''https://api.weather.gov/points/0,0'')"
  by (simp add: aggregate_def getWeatherByCoords_def fetchJson_def downNet_def ok_def
      NWS_BASE_URL_def sampleNumberToString_def)

lemma aggregate_sampleNet:
  "aggregate nts sampleDateKey (Some (Fin 42)) (Some (Fin (- 71))) (sampleNet [] obs) =
     Inr samplePayload"
  by (simp add: aggregate_def getWeatherByCoords_sampleNet)

text \<open>
  On a service that is down for two aggregations and then up, the wrapper makes three
  calls with the two sleeps between them and returns the payload of the third; on a
  service that stays down it makes the same three calls and throws the last error.
\<close>

theorem fetchWithRetry_schedule_witness:
  "fst (fetchWithRetry sampleNumberToString sampleDateKey (Some (Fin 42)) (Some (Fin (- 71)))
          flakyWorld) =
     Inr samplePayload \<and>
   calls (snd (fetchWithRetry sampleNumberToString sampleDateKey (Some (Fin 42))
                 (Some (Fin (- 71))) flakyWorld)) = 3 \<and>
   fst (fetchWithRetry sampleNumberToString sampleDateKey (Some (Fin 42)) (Some (Fin (- 71)))
          \<lparr>upstream = (\<lambda>n. downNet), trace = []\<rparr>) =
     Inl (Some (RequestFailed 503 ''https://api.weather.gov/points/0,0''))"
proof -
  have c: "calls flakyWorld = 0" "calls \<lparr>upstream = (\<lambda>n. downNet), trace = []\<rparr> = 0"
    by (simp_all add: calls_def flakyWorld_def)
  have a: "aggregate sampleNumberToString sampleDateKey (Some (Fin 42)) (Some (Fin (- 71)))
             (upstream flakyWorld (calls flakyWorld)) =
           Inl (RequestFailed 503 ''https://api.weather.gov/points/0,0'') \<and>
           aggregate sampleNumberToString sampleDateKey (Some (Fin 42)) (Some (Fin (- 71)))
             (upstream flakyWorld (calls flakyWorld + 1)) =
           Inl (RequestFailed 503 ''https://api.weather.gov/points/0,0'') \<and>
           aggregate sampleNumberToString sampleDateKey (Some (Fin 42)) (Some (Fin (- 71)))
             (upstream flakyWorld (calls flakyWorld + 2)) =
           Inr samplePayload"
    by (simp add: calls_def flakyWorld_def aggregate_downNet aggregate_sampleNet)
  have b: "aggregate sampleNumberToString sampleDateKey (Some (Fin 42)) (Some (Fin (- 71)))
             (upstream \<lparr>upstream = (\<lambda>n. downNet), trace = []\<rparr>
                (calls \<lparr>upstream = (\<lambda>n. downNet), trace = []\<rparr>)) =
           Inl (RequestFailed 503 ''https://api.weather.gov/points/0,0'') \<and>
           aggregate sampleNumberToString sampleDateKey (Some (Fin 42)) (Some (Fin (- 71)))
             (upstream \<lparr>upstream = (\<lambda>n. downNet), trace = []\<rparr>
                (calls \<lparr>upstream = (\<lambda>n. downNet), trace = []\<rparr> + 1)) =
           Inl (RequestFailed 503 ''https://api.weather.gov/points/0,0'') \<and>
           aggregate sampleNumberToString sampleDateKey (Some (Fin 42)) (Some (Fin (- 71)))
             (upstream \<lparr>upstream = (\<lambda>n. downNet), trace = []\<rparr>
                (calls \<lparr>upstream = (\<lambda>n. downNet), trace = []\<rparr> + 2)) =
           Inl (RequestFailed 503 ''https://api.weather.gov/points/0,0'')"
    by (simp add: aggregate_downNet)
  note t1 = fetchWithRetry_schedule
              [where nts = sampleNumberToString and fmt = sampleDateKey and la = "Some (Fin 42)"
                 and lo = "Some (Fin (- 71))" and w = flakyWorld
                 and ?e0.0 = "RequestFailed 503 ''https://api.weather.gov/points/0,0''"
                 and ?e1.0 = "RequestFailed 503 ''https://api.weather.gov/points/0,0''"
                 and payload = samplePayload]
  note t2 = fetchWithRetry_schedule
              [where nts = sampleNumberToString and fmt = sampleDateKey and la = "Some (Fin 42)"
                 and lo = "Some (Fin (- 71))" and w = "\<lparr>upstream = (\<lambda>n. downNet), trace = []\<rparr>"
                 and ?e0.0 = "RequestFailed 503 ''https://api.weather.gov/points/0,0''"
                 and ?e1.0 = "RequestFailed 503 ''https://api.weather.gov/points/0,0''"
                 and ?e2.0 = "RequestFailed 503 ''https://api.weather.gov/points/0,0''"]
  from t1 a have "fst (fetchWithRetry sampleNumberToString sampleDateKey (Some (Fin 42))
                        (Some (Fin (- 71))) flakyWorld) =
     Inr samplePayload \<and>
     calls (snd (fetchWithRetry sampleNumberToString sampleDateKey (Some (Fin 42))
                 (Some (Fin (- 71))) flakyWorld)) = calls flakyWorld + 3"
    by blast
  moreover from t2 b have "fst (fetchWithRetry sampleNumberToString sampleDateKey (Some (Fin 42))
          (Some (Fin (- 71))) \<lparr>upstream = (\<lambda>n. downNet), trace = []\<rparr>) =
     Inl (Some (RequestFailed 503 ''https://api.weather.gov/points/0,0''))"
    by blast
  ultimately show ?thesis by (simp add: c)
qed

section \<open>Bucket keys\<close>

lemma floor_scaled_whole: "\<lfloor>of_int z * 1000 + 1 / 2 :: rat\<rfloor> = z * 1000"
  by (rule floor_unique) simp_all

lemma rounded_magnitude:
  assumes "(a < 0) = (b < 0)" and "spec_round3 (Fin a) = spec_round3 (Fin b)"
  shows "\<lfloor>\<bar>a\<bar> * 1000 + 1 / 2\<rfloor> = \<lfloor>\<bar>b\<bar> * 1000 + 1 / 2\<rfloor>"
  using assms by (simp add: spec_round3_def split: if_splits)

lemma whole_magnitude:
  assumes "wholeIfLarge q" and "2 ^ 53 \<le> \<bar>q\<bar>"
  shows "\<bar>q\<bar> = of_int \<bar>\<lfloor>q\<rfloor>\<bar>"
proof -
  have "q = of_int \<lfloor>q\<rfloor>" using assms by (simp add: wholeIfLarge_def)
  then have "\<bar>q\<bar> = \<bar>of_int \<lfloor>q\<rfloor>\<bar>" by simp
  then show ?thesis by (simp only: of_int_abs)
qed

lemma huge_same_magnitude:
  assumes a: "10 ^ 21 \<le> \<bar>a\<bar>" and wa: "wholeIfLarge a" and wb: "wholeIfLarge b"
    and n: "\<lfloor>\<bar>a\<bar> * 1000 + 1 / 2\<rfloor> = \<lfloor>\<bar>b\<bar> * 1000 + 1 / 2\<rfloor>"
  shows "\<bar>a\<bar> = \<bar>b\<bar>"
proof -
  define A where "A = \<bar>\<lfloor>a\<rfloor>\<bar>"
  have "(2::rat) ^ 53 \<le> 10 ^ 21" by simp
  then have biga: "2 ^ 53 \<le> \<bar>a\<bar>" using a by (rule order_trans)
  have absa: "\<bar>a\<bar> = of_int A"
    unfolding A_def using wa biga by (rule whole_magnitude)
  have na: "\<lfloor>\<bar>b\<bar> * 1000 + 1 / 2\<rfloor> = A * 1000"
    using n by (simp only: absa floor_scaled_whole)
  have "of_int \<lfloor>\<bar>b\<bar> * 1000 + 1 / 2\<rfloor> \<le> \<bar>b\<bar> * 1000 + 1 / 2"
    by (rule of_int_floor_le)
  then have "(of_int A :: rat) * 1000 \<le> \<bar>b\<bar> * 1000 + 1 / 2"
    by (simp only: na of_int_mult of_int_numeral)
  moreover have "(10::rat) ^ 21 \<le> of_int A"
    using a by (simp only: absa)
  ultimately have "(10::rat) ^ 21 * 1000 \<le> \<bar>b\<bar> * 1000 + 1 / 2"
    by linarith
  then have bigb: "(2::rat) ^ 53 \<le> \<bar>b\<bar>"
    by simp
  have absb: "\<bar>b\<bar> = of_int \<bar>\<lfloor>b\<rfloor>\<bar>"
    using wb bigb by (rule whole_magnitude)
  have "\<lfloor>\<bar>b\<bar> * 1000 + 1 / 2\<rfloor> = \<bar>\<lfloor>b\<rfloor>\<bar> * 1000"
    by (subst absb) (rule floor_scaled_whole)
  then have "A = \<bar>\<lfloor>b\<rfloor>\<bar>"
    using na by simp
  then show ?thesis
    by (simp only: absa absb)
qed

lemma toFixed_same_cell:
  assumes wa: "wholeIfLarge a" and wb: "wholeIfLarge b" and sg: "(a < 0) = (b < 0)"
    and r: "spec_round3 (Fin a) = spec_round3 (Fin b)"
  shows "toFixed nts (Fin a) 3 = toFixed nts (Fin b) 3"
proof -
  have n: "\<lfloor>\<bar>a\<bar> * 1000 + 1 / 2\<rfloor> = \<lfloor>\<bar>b\<bar> * 1000 + 1 / 2\<rfloor>"
    using sg r by (rule rounded_magnitude)
  show ?thesis
  proof (cases "10 ^ 21 \<le> \<bar>a\<bar> \<or> 10 ^ 21 \<le> \<bar>b\<bar>")
    case False
    then show ?thesis
      using n sg by (simp add: toFixed_def Let_def)
  next
    case True
    then have "\<bar>a\<bar> = \<bar>b\<bar>"
    proof
      assume "10 ^ 21 \<le> \<bar>a\<bar>"
      then show ?thesis using wa wb n by (rule huge_same_magnitude)
    next
      assume "10 ^ 21 \<le> \<bar>b\<bar>"
      then have "\<bar>b\<bar> = \<bar>a\<bar>" using wb wa n [symmetric] by (rule huge_same_magnitude)
      then show ?thesis by simp
    qed
    then have "a = b" using sg by (auto simp add: abs_if split: if_splits)
    then show ?thesis by simp
  qed
qed

lemma toFixed_same_cell_any:
  assumes "doubleLike x" and "doubleLike y" and "isNegative x = isNegative y"
    and "spec_round3 x = spec_round3 y"
  shows "toFixed nts x 3 = toFixed nts y 3"
proof (cases x)
  case (Fin a)
  then obtain b where y: "y = Fin b"
    using assms(4) by (cases y) (simp_all add: spec_round3_def)
  show ?thesis
    using assms unfolding Fin y
    by (intro toFixed_same_cell) (simp_all add: doubleLike_def isNegative_def)
qed (use assms(4) in \<open>auto simp add: spec_round3_def split: jsnum.splits\<close>)

lemma fixedDigits_zero: "fixedDigits 0 3 = ''0.000''"
  by code_simp

lemma toFixed_opposite_sides:
  assumes r: "spec_round3 (Fin a) = spec_round3 (Fin b)" and a: "a < 0" and b: "0 \<le> b"
  shows "toFixed nts (Fin a) 3 = ''-0.000'' \<and> toFixed nts (Fin b) 3 = ''0.000''"
proof -
  have pa: "0 \<le> \<lfloor>\<bar>a\<bar> * 1000 + 1 / 2\<rfloor>" and pb: "0 \<le> \<lfloor>\<bar>b\<bar> * 1000 + 1 / 2\<rfloor>"
    by simp_all
  have "- (of_int \<lfloor>\<bar>a\<bar> * 1000 + 1 / 2\<rfloor> :: rat) = of_int \<lfloor>\<bar>b\<bar> * 1000 + 1 / 2\<rfloor>"
    using r a b by (simp add: spec_round3_def)
  then have "(of_int (- \<lfloor>\<bar>a\<bar> * 1000 + 1 / 2\<rfloor>) :: rat) = of_int \<lfloor>\<bar>b\<bar> * 1000 + 1 / 2\<rfloor>"
    by simp
  then have "- \<lfloor>\<bar>a\<bar> * 1000 + 1 / 2\<rfloor> = \<lfloor>\<bar>b\<bar> * 1000 + 1 / 2\<rfloor>"
    by (simp only: of_int_eq_iff)
  then have za: "\<lfloor>\<bar>a\<bar> * 1000 + 1 / 2\<rfloor> = 0" and zb: "\<lfloor>\<bar>b\<bar> * 1000 + 1 / 2\<rfloor> = 0"
    using pa pb by linarith+
  have "\<bar>a\<bar> * 1000 + 1 / 2 < 1"
    using za floor_less_iff [of "\<bar>a\<bar> * 1000 + 1 / 2" 1] by simp
  then have sa: "\<not> 10 ^ 21 \<le> \<bar>a\<bar>" by simp
  have "\<bar>b\<bar> * 1000 + 1 / 2 < 1"
    using zb floor_less_iff [of "\<bar>b\<bar> * 1000 + 1 / 2" 1] by simp
  then have sb: "\<not> 10 ^ 21 \<le> \<bar>b\<bar>" by simp
  have "toFixed nts (Fin a) 3 = ''-'' @ fixedDigits 0 3"
    using a sa za by (simp add: toFixed_def Let_def)
  moreover have "toFixed nts (Fin b) 3 = fixedDigits 0 3"
    using b sb zb by (simp add: toFixed_def Let_def)
  ultimately show ?thesis
    by (simp add: fixedDigits_zero)
qed

lemma suffix_differs: "xs @ '',-0.000'' \<noteq> ys @ '',0.000''"
proof
  assume "xs @ '',-0.000'' = ys @ '',0.000''"
  then have "rev (xs @ '',-0.000'') = rev (ys @ '',0.000'')"
    by (rule arg_cong)
  then show False by simp
qed

lemma coordsBucketKey_not_default: "coordsBucketKey nts la lo \<noteq> ''default''"
  by (simp add: coordsBucketKey_def)

text \<open>
  C8 (as amended).  The request without coordinates uses the bucket \<open>default\<close>.  The
  request with coordinates uses the key \<open>coords:\<close> followed by the two \<open>toFixed(3)\<close>
  renderings joined by a comma, which is never \<open>default\<close>.  Two pairs of coordinates
  have the same key when, in each coordinate, they round to the same three-decimal value
  and are both below zero or both not.  Two finite latitudes, or two finite longitudes,
  that round to the same value but of which one is below zero and the other is not (both
  then round to \<open>0.000\<close>) give different keys.  The coordinates are doubles: of the
  rationals of the model, those of magnitude \<open>2^53\<close> or more are whole numbers.
\<close>

theorem bucket_key_derivation:
  "getWeatherSnapshot_enter now clock s =
     getSnapshotForBucket_enter ''default'' FetchDefault None now clock s \<and>
   getWeatherSnapshotByCoords_enter nts la lo ov now clock s =
     getSnapshotForBucket_enter (''coords:'' @ toFixed nts la 3 @ '','' @ toFixed nts lo 3)
       (FetchCoords la lo) ov now clock s \<and>
   coordsBucketKey nts la lo \<noteq> ''default'' \<and>
   (doubleLike x1 \<and> doubleLike x2 \<and> doubleLike y1 \<and> doubleLike y2 \<and>
    spec_round3 x1 = spec_round3 x2 \<and> isNegative x1 = isNegative x2 \<and>
    spec_round3 y1 = spec_round3 y2 \<and> isNegative y1 = isNegative y2 \<longrightarrow>
    coordsBucketKey nts x1 y1 = coordsBucketKey nts x2 y2) \<and>
   (spec_round3 (Fin a1) = spec_round3 (Fin a2) \<and> a1 < 0 \<and> 0 \<le> a2 \<longrightarrow>
    coordsBucketKey nts (Fin a1) lo1 \<noteq> coordsBucketKey nts (Fin a2) lo2) \<and>
   (spec_round3 (Fin o1) = spec_round3 (Fin o2) \<and> o1 < 0 \<and> 0 \<le> o2 \<longrightarrow>
    coordsBucketKey nts la1 (Fin o1) \<noteq> coordsBucketKey nts la2 (Fin o2))"
proof (intro conjI impI)
  show "getWeatherSnapshot_enter now clock s =
     getSnapshotForBucket_enter ''default'' FetchDefault None now clock s"
    by (simp add: getWeatherSnapshot_enter_def)
  show "getWeatherSnapshotByCoords_enter nts la lo ov now clock s =
     getSnapshotForBucket_enter (''coords:'' @ toFixed nts la 3 @ '','' @ toFixed nts lo 3)
       (FetchCoords la lo) ov now clock s"
    by (simp add: getWeatherSnapshotByCoords_enter_def coordsBucketKey_def)
  show "coordsBucketKey nts la lo \<noteq> ''default''"
    by (rule coordsBucketKey_not_default)
next
  assume h: "doubleLike x1 \<and> doubleLike x2 \<and> doubleLike y1 \<and> doubleLike y2 \<and>
    spec_round3 x1 = spec_round3 x2 \<and> isNegative x1 = isNegative x2 \<and>
    spec_round3 y1 = spec_round3 y2 \<and> isNegative y1 = isNegative y2"
  have "toFixed nts x1 3 = toFixed nts x2 3"
    using h by (intro toFixed_same_cell_any) simp_all
  moreover have "toFixed nts y1 3 = toFixed nts y2 3"
    using h by (intro toFixed_same_cell_any) simp_all
  ultimately show "coordsBucketKey nts x1 y1 = coordsBucketKey nts x2 y2"
    by (simp add: coordsBucketKey_def)
next
  assume "spec_round3 (Fin a1) = spec_round3 (Fin a2) \<and> a1 < 0 \<and> 0 \<le> a2"
  then have "toFixed nts (Fin a1) 3 = ''-0.000'' \<and> toFixed nts (Fin a2) 3 = ''0.000''"
    by (intro toFixed_opposite_sides) simp_all
  then show "coordsBucketKey nts (Fin a1) lo1 \<noteq> coordsBucketKey nts (Fin a2) lo2"
    by (simp add: coordsBucketKey_def)
next
  assume "spec_round3 (Fin o1) = spec_round3 (Fin o2) \<and> o1 < 0 \<and> 0 \<le> o2"
  then have t: "toFixed nts (Fin o1) 3 = ''-0.000'' \<and> toFixed nts (Fin o2) 3 = ''0.000''"
    by (intro toFixed_opposite_sides) simp_all
  have "toFixed nts la1 3 @ '',-0.000'' \<noteq> toFixed nts la2 3 @ '',0.000''"
    by (rule suffix_differs)
  then show "coordsBucketKey nts la1 (Fin o1) \<noteq> coordsBucketKey nts la2 (Fin o2)"
    using t by (simp add: coordsBucketKey_def)
qed

text \<open>
  The pairs \<open>(0.5, -0.25)\<close> and \<open>(0.5001, -0.2501)\<close> round to the same values with the
  same signs; both have the key \<open>coords:0.500,-0.250\<close>.  The latitudes \<open>-1/8192\<close> and
  \<open>1/8192\<close>, and the same two numbers as longitudes, give different keys.
\<close>

theorem bucket_key_derivation_witness:
  "coordsBucketKey sampleNumberToString (Fin (1 / 2)) (Fin (- (1 / 4))) =
   coordsBucketKey sampleNumberToString (Fin (5001 / 10000)) (Fin (- (2501 / 10000))) \<and>
   coordsBucketKey sampleNumberToString (Fin (1 / 2)) (Fin (- (1 / 4))) = ''coords:0.500,-0.250'' \<and>
   coordsBucketKey sampleNumberToString (Fin (- (1 / 8192))) (Fin 7) \<noteq>
   coordsBucketKey sampleNumberToString (Fin (1 / 8192)) (Fin 7) \<and>
   coordsBucketKey sampleNumberToString (Fin 7) (Fin (- (1 / 8192))) \<noteq>
   coordsBucketKey sampleNumberToString (Fin 7) (Fin (1 / 8192))"
proof (intro conjI)
  have w: "doubleLike (Fin (1 / 2)) \<and> doubleLike (Fin (5001 / 10000)) \<and>
           doubleLike (Fin (- (1 / 4))) \<and> doubleLike (Fin (- (2501 / 10000)))"
    by (simp add: doubleLike_def wholeIfLarge_def)
  have r1: "spec_round3 (Fin (1 / 2)) = spec_round3 (Fin (5001 / 10000))"
    by code_simp
  have r2: "spec_round3 (Fin (- (1 / 4))) = spec_round3 (Fin (- (2501 / 10000)))"
    by code_simp
  have sg: "isNegative (Fin (1 / 2)) = isNegative (Fin (5001 / 10000))"
    "isNegative (Fin (- (1 / 4))) = isNegative (Fin (- (2501 / 10000)))"
    by (simp_all add: isNegative_def)
  have h: "doubleLike (Fin (1 / 2)) \<and> doubleLike (Fin (5001 / 10000)) \<and>
           doubleLike (Fin (- (1 / 4))) \<and> doubleLike (Fin (- (2501 / 10000))) \<and>
           spec_round3 (Fin (1 / 2)) = spec_round3 (Fin (5001 / 10000)) \<and>
           isNegative (Fin (1 / 2)) = isNegative (Fin (5001 / 10000)) \<and>
           spec_round3 (Fin (- (1 / 4))) = spec_round3 (Fin (- (2501 / 10000))) \<and>
           isNegative (Fin (- (1 / 4))) = isNegative (Fin (- (2501 / 10000)))"
    using w r1 r2 sg by (intro conjI) simp_all
  note t = bucket_key_derivation
             [where ?x1.0 = "Fin (1 / 2)" and ?x2.0 = "Fin (5001 / 10000)"
                and ?y1.0 = "Fin (- (1 / 4))" and ?y2.0 = "Fin (- (2501 / 10000))"
                and nts = sampleNumberToString]
  show "coordsBucketKey sampleNumberToString (Fin (1 / 2)) (Fin (- (1 / 4))) =
   coordsBucketKey sampleNumberToString (Fin (5001 / 10000)) (Fin (- (2501 / 10000)))"
    by (rule t [THEN conjunct2, THEN conjunct2, THEN conjunct2, THEN conjunct1, THEN mp, OF h])
  show "coordsBucketKey sampleNumberToString (Fin (1 / 2)) (Fin (- (1 / 4))) =
     ''coords:0.500,-0.250''"
    by code_simp
  have z: "spec_round3 (Fin (- (1 / 8192))) = spec_round3 (Fin (1 / 8192)) \<and>
           (- (1 / 8192) :: rat) < 0 \<and> (0 :: rat) \<le> 1 / 8192"
    by code_simp
  note u = bucket_key_derivation
             [where ?a1.0 = "- (1 / 8192)" and ?a2.0 = "1 / 8192"
                and ?o1.0 = "- (1 / 8192)" and ?o2.0 = "1 / 8192"
                and ?lo1.0 = "Fin 7" and ?lo2.0 = "Fin 7" and ?la1.0 = "Fin 7" and ?la2.0 = "Fin 7"
                and nts = sampleNumberToString]
  show "coordsBucketKey sampleNumberToString (Fin (- (1 / 8192))) (Fin 7) \<noteq>
        coordsBucketKey sampleNumberToString (Fin (1 / 8192)) (Fin 7)"
    by (rule u [THEN conjunct2, THEN conjunct2, THEN conjunct2, THEN conjunct2, THEN conjunct1,
                THEN mp, OF z])
  show "coordsBucketKey sampleNumberToString (Fin 7) (Fin (- (1 / 8192))) \<noteq>
        coordsBucketKey sampleNumberToString (Fin 7) (Fin (1 / 8192))"
    by (rule u [THEN conjunct2, THEN conjunct2, THEN conjunct2, THEN conjunct2, THEN conjunct2,
                THEN mp, OF z])
qed

text \<open>
  C8 as stated fails at zero: the latitudes \<open>-1/4096\<close> and \<open>1/4096\<close> both round to
  \<open>0.000\<close>, but \<open>toFixed\<close> keeps the minus sign of the first, so the two requests get
  the keys \<open>coords:-0.000,0.000\<close> and \<open>coords:0.000,0.000\<close>.
\<close>

theorem bucket_key_signed_zero_counterexample:
  "spec_round3 (Fin (- (1 / 4096))) = spec_round3 (Fin (1 / 4096)) \<and>
   coordsBucketKey sampleNumberToString (Fin (- (1 / 4096))) (Fin 0) = ''coords:-0.000,0.000'' \<and>
   coordsBucketKey sampleNumberToString (Fin (1 / 4096)) (Fin 0) = ''coords:0.000,0.000'' \<and>
   coordsBucketKey sampleNumberToString (Fin (- (1 / 4096))) (Fin 0) \<noteq>
   coordsBucketKey sampleNumberToString (Fin (1 / 4096)) (Fin 0)"
  by code_simp

section \<open>The snapshot cache\<close>

subsection \<open>Entering: the three outcomes\<close>

lemma enter_fresh:
  assumes "cacheBuckets s key = Some b" "cache b = Some e" "now - fetchedAt e < CACHE_TTL_MS"
  shows "getSnapshotForBucket_enter key f ov now clock s =
           (Returned \<lparr>snap_data = applyOverrideName (data e) ov,
                      meta = \<lparr>source = Cache, meta_fetchedAt = fetchedAt e,
                              ageMs = clock - fetchedAt e\<rparr>\<rparr>, s)"
  using assms
  by (simp add: getSnapshotForBucket_enter_def getBucket_def isFresh_def buildMeta_def)

lemma enter_join:
  assumes "cacheBuckets s key = Some b" "\<not> isFresh b now" "inFlight b = Some pid"
  shows "getSnapshotForBucket_enter key f ov now clock s = (Awaiting pid, s)"
  using assms by (simp add: getSnapshotForBucket_enter_def getBucket_def)

lemma enter_start:
  assumes "cacheBuckets s key = Some b" "\<not> isFresh b now" "inFlight b = None"
  shows "getSnapshotForBucket_enter key f ov now clock s =
           (Awaiting (length (promises s)),
            s\<lparr>cacheBuckets := (cacheBuckets s)(key \<mapsto> b\<lparr>inFlight := Some (length (promises s))\<rparr>),
              promises := promises s @ [\<lparr>p_bucket = key, p_fetcher = f, p_phase = Running\<rparr>]\<rparr>)"
  using assms by (simp add: getSnapshotForBucket_enter_def getBucket_def Let_def)

lemma enter_new:
  assumes "cacheBuckets s key = None"
  shows "getSnapshotForBucket_enter key f ov now clock s =
           (Awaiting (length (promises s)),
            s\<lparr>cacheBuckets :=
                (cacheBuckets s)(key \<mapsto> emptyBucket\<lparr>inFlight := Some (length (promises s))\<rparr>),
              promises := promises s @ [\<lparr>p_bucket = key, p_fetcher = f, p_phase = Running\<rparr>]\<rparr>)"
  using assms
  by (simp add: getSnapshotForBucket_enter_def getBucket_def Let_def isFresh_def emptyBucket_def)

lemma enter_cases:
  obtains (fresh) b e where "cacheBuckets s key = Some b" "cache b = Some e"
      "now - fetchedAt e < CACHE_TTL_MS"
  | (join) b pid where "cacheBuckets s key = Some b" "\<not> isFresh b now" "inFlight b = Some pid"
  | (start) b where "cacheBuckets s key = Some b" "\<not> isFresh b now" "inFlight b = None"
  | (new) "cacheBuckets s key = None"
proof (cases "cacheBuckets s key")
  case None
  then show ?thesis by (rule new)
next
  case (Some b)
  show ?thesis
  proof (cases "isFresh b now")
    case True
    then obtain e where "cache b = Some e" "now - fetchedAt e < CACHE_TTL_MS"
      by (auto simp add: isFresh_def split: option.splits)
    with Some show ?thesis by (rule fresh)
  next
    case False
    show ?thesis
    proof (cases "inFlight b")
      case None
      with Some False show ?thesis by (rule start)
    next
      case (Some pid)
      with \<open>cacheBuckets s key = Some b\<close> False show ?thesis by (rule join)
    qed
  qed
qed

text \<open>
  The state a request leaves behind does not depend on the name override or on the clock
  read for the metadata, so the event \<open>Enter\<close> stands for every request with that key,
  fetcher and entry time.
\<close>

lemma enter_state:
  "snd (getSnapshotForBucket_enter key f ov now clock s) = step (Enter key f now) s"
proof (cases s key now rule: enter_cases)
  case (fresh b e)
  then show ?thesis by (simp add: enter_fresh)
next
  case (join b pid)
  then show ?thesis by (simp add: enter_join)
next
  case (start b)
  then show ?thesis by (simp add: enter_start)
next
  case new
  then show ?thesis by (simp add: enter_new)
qed

lemma reachable_enter:
  assumes "reachable s"
  shows "reachable (snd (getSnapshotForBucket_enter key f ov now clock s))"
proof -
  have "reachable (step (Enter key f now) s)"
    using assms by (rule reachable_step)
  then show ?thesis by (simp only: enter_state)
qed

subsection \<open>The callbacks\<close>

lemma setPhase_simps:
  "cacheBuckets (setPhase pid ph s) = cacheBuckets s"
  "promises (setPhase pid ph s) = (promises s)[pid := (promises s ! pid)\<lparr>p_phase := ph\<rparr>]"
  by (simp_all add: setPhase_def)

lemma updateBucket_simps:
  "promises (updateBucket key g s) = promises s"
  "cacheBuckets (updateBucket key g s) =
     (case cacheBuckets s key of None \<Rightarrow> cacheBuckets s | Some b \<Rightarrow> (cacheBuckets s)(key \<mapsto> g b))"
  by (simp_all add: updateBucket_def split: option.splits)

lemma fetcherSettles_effect:
  "cacheBuckets (fetcherSettles pid r s) = cacheBuckets s"
  "promises (fetcherSettles pid r s) =
     (if phaseOf s pid = Some Running then (promises s)[pid := (promises s ! pid)\<lparr>p_phase := FetcherSettled r\<rparr>]
      else promises s)"
  by (simp_all add: fetcherSettles_def setPhase_simps split: option.splits phase.splits)

lemma thenCallback_fulfilled:
  assumes "phaseOf s pid = Some (FetcherSettled (Inr payload))"
  shows "cacheBuckets (thenCallback pid clock s) =
           (case cacheBuckets s (p_bucket (promises s ! pid)) of
              None \<Rightarrow> cacheBuckets s
            | Some b \<Rightarrow> (cacheBuckets s)(p_bucket (promises s ! pid) \<mapsto> storeFetched payload clock b))"
    and "promises (thenCallback pid clock s) =
           (promises s)[pid := (promises s ! pid)\<lparr>p_phase := ThenSettled (Inr payload)\<rparr>]"
  using assms by (simp_all add: thenCallback_def setPhase_simps updateBucket_simps)

lemma thenCallback_rejected:
  assumes "phaseOf s pid = Some (FetcherSettled (Inl err))"
  shows "cacheBuckets (thenCallback pid clock s) = cacheBuckets s"
    and "promises (thenCallback pid clock s) =
           (promises s)[pid := (promises s ! pid)\<lparr>p_phase := ThenSettled (Inl err)\<rparr>]"
  using assms by (simp_all add: thenCallback_def setPhase_simps)

lemma thenCallback_disabled:
  assumes "\<forall>r. phaseOf s pid \<noteq> Some (FetcherSettled r)"
  shows "thenCallback pid clock s = s"
  using assms by (simp add: thenCallback_def split: option.splits phase.splits)

lemma finallyCallback_enabled:
  assumes "phaseOf s pid = Some (ThenSettled r)"
  shows "cacheBuckets (finallyCallback pid s) =
           (case cacheBuckets s (p_bucket (promises s ! pid)) of
              None \<Rightarrow> cacheBuckets s
            | Some b \<Rightarrow> (cacheBuckets s)(p_bucket (promises s ! pid) \<mapsto> b\<lparr>inFlight := None\<rparr>))"
    and "promises (finallyCallback pid s) =
           (promises s)[pid := (promises s ! pid)\<lparr>p_phase := Settled r\<rparr>]"
  using assms by (simp_all add: finallyCallback_def setPhase_simps updateBucket_simps)

lemma finallyCallback_disabled:
  assumes "\<forall>r. phaseOf s pid \<noteq> Some (ThenSettled r)"
  shows "finallyCallback pid s = s"
  using assms by (simp add: finallyCallback_def split: option.splits phase.splits)

subsection \<open>The two slots of a bucket agree\<close>

lemma slotsAgree_initial: "slotsAgree initial"
  by (simp add: slotsAgree_def initial_def)

lemma slotsAgree_enter:
  assumes "slotsAgree s"
  shows "slotsAgree (snd (getSnapshotForBucket_enter key f ov now clock s))"
proof (cases s key now rule: enter_cases)
  case (fresh b e)
  then show ?thesis using assms by (simp add: enter_fresh)
next
  case (join b pid)
  then show ?thesis using assms by (simp add: enter_join)
next
  case (start b)
  then show ?thesis using assms by (auto simp add: enter_start slotsAgree_def)
next
  case new
  then show ?thesis using assms by (auto simp add: enter_new slotsAgree_def emptyBucket_def)
qed

lemma slotsAgree_thenCallback:
  assumes "slotsAgree s"
  shows "slotsAgree (thenCallback pid clock s)"
proof (cases "\<exists>r. phaseOf s pid = Some (FetcherSettled r)")
  case False
  then show ?thesis using assms by (simp add: thenCallback_disabled)
next
  case True
  then obtain r where r: "phaseOf s pid = Some (FetcherSettled r)" by blast
  show ?thesis
  proof (cases r)
    case (Inl err)
    then show ?thesis
      using assms r by (simp add: slotsAgree_def thenCallback_rejected)
  next
    case (Inr payload)
    then show ?thesis
      using assms r
      by (auto simp add: slotsAgree_def thenCallback_fulfilled storeFetched_def
          split: option.splits if_splits)
  qed
qed

lemma slotsAgree_finallyCallback:
  assumes "slotsAgree s"
  shows "slotsAgree (finallyCallback pid s)"
proof (cases "\<exists>r. phaseOf s pid = Some (ThenSettled r)")
  case False
  then show ?thesis using assms by (simp add: finallyCallback_disabled)
next
  case True
  then obtain r where r: "phaseOf s pid = Some (ThenSettled r)" by blast
  then show ?thesis
    using assms
    by (auto simp add: slotsAgree_def finallyCallback_enabled split: option.splits if_splits)
qed

lemma slotsAgree_step:
  assumes "slotsAgree s"
  shows "slotsAgree (step e s)"
proof (cases e)
  case (Enter key f now)
  then show ?thesis using assms by (simp add: slotsAgree_enter)
next
  case (FetcherSettles pid r)
  then show ?thesis using assms by (simp add: slotsAgree_def fetcherSettles_effect)
next
  case (ThenCallback pid clock)
  then show ?thesis using assms by (simp add: slotsAgree_thenCallback)
next
  case (FinallyCallback pid)
  then show ?thesis using assms by (simp add: slotsAgree_finallyCallback)
qed

lemma reachable_slotsAgree: "reachable s \<Longrightarrow> slotsAgree s"
  by (induction rule: reachable.induct) (simp_all add: slotsAgree_initial slotsAgree_step)

lemma reachable_run: "reachable s \<Longrightarrow> reachable (run es s)"
proof (induction es arbitrary: s)
  case Nil
  then show ?case by (simp add: run_def)
next
  case (Cons e es)
  have "run (e # es) s = run es (step e s)" by (simp add: run_def)
  then show ?case using Cons by (simp add: reachable_step)
qed

lemma run_sampleRun: "run sampleRun initial = sampleState"
  by (simp add: run_def sampleRun_def initial_def sampleState_def sampleEntry_def
      getSnapshotForBucket_enter_def getBucket_def isFresh_def emptyBucket_def Let_def
      fetcherSettles_def thenCallback_def finallyCallback_def phaseOf_def setPhase_def
      updateBucket_def storeFetched_def)

lemma reachable_sampleState: "reachable sampleState"
  using reachable_run [OF reachable_initial, of sampleRun] by (simp add: run_sampleRun)

subsection \<open>Every unfinished chain is the one in flight\<close>

lemma phaseOf_Some:
  "phaseOf s pid = Some ph \<longleftrightarrow> pid < length (promises s) \<and> p_phase (promises s ! pid) = ph"
  by (auto simp add: phaseOf_def)

lemma chainsTracked_initial: "chainsTracked initial"
  by (simp add: chainsTracked_def initial_def)

lemma chainsTracked_D:
  assumes "chainsTracked s" "pid < length (promises s)"
    "\<not> isSettled (p_phase (promises s ! pid))"
  shows "\<exists>b. cacheBuckets s (p_bucket (promises s ! pid)) = Some b \<and> inFlight b = Some pid"
  using assms by (simp add: chainsTracked_def)

lemma chainsTracked_append:
  assumes t: "chainsTracked s"
    and free: "cacheBuckets s key = None \<or> (\<exists>b. cacheBuckets s key = Some b \<and> inFlight b = None)"
    and b': "inFlight b' = Some (length (promises s))"
  shows "chainsTracked
           (s\<lparr>cacheBuckets := (cacheBuckets s)(key \<mapsto> b'),
              promises := promises s @ [\<lparr>p_bucket = key, p_fetcher = f, p_phase = Running\<rparr>]\<rparr>)"
  unfolding chainsTracked_def
proof (intro allI impI)
  fix pid
  let ?s' = "s\<lparr>cacheBuckets := (cacheBuckets s)(key \<mapsto> b'),
              promises := promises s @ [\<lparr>p_bucket = key, p_fetcher = f, p_phase = Running\<rparr>]\<rparr>"
  assume lt: "pid < length (promises ?s')"
    and un: "\<not> isSettled (p_phase (promises ?s' ! pid))"
  show "\<exists>b. cacheBuckets ?s' (p_bucket (promises ?s' ! pid)) = Some b \<and> inFlight b = Some pid"
  proof (cases "pid = length (promises s)")
    case True
    then show ?thesis using b' by simp
  next
    case False
    then have old: "pid < length (promises s)" using lt by simp
    then have same: "promises ?s' ! pid = promises s ! pid"
      by (simp add: nth_append)
    from chainsTracked_D [OF t old] un same
    obtain b where b: "cacheBuckets s (p_bucket (promises s ! pid)) = Some b"
      "inFlight b = Some pid"
      by auto
    then have "p_bucket (promises s ! pid) \<noteq> key"
      using free by auto
    then show ?thesis using b same by simp
  qed
qed

lemma chainsTracked_enter:
  assumes "chainsTracked s"
  shows "chainsTracked (snd (getSnapshotForBucket_enter key f ov now clock s))"
proof (cases s key now rule: enter_cases)
  case (fresh b e)
  then show ?thesis using assms by (simp add: enter_fresh)
next
  case (join b pid)
  then show ?thesis using assms by (simp add: enter_join)
next
  case (start b)
  then show ?thesis
    using chainsTracked_append [OF assms, of key "b\<lparr>inFlight := Some (length (promises s))\<rparr>" f]
    by (simp add: enter_start)
next
  case new
  then show ?thesis
    using chainsTracked_append
            [OF assms, of key "emptyBucket\<lparr>inFlight := Some (length (promises s))\<rparr>" f]
    by (simp add: enter_new)
qed

lemma chainsTracked_rephase:
  assumes t: "chainsTracked s"
    and pid: "pid < length (promises s)" "\<not> isSettled (p_phase (promises s ! pid))"
    and keep: "\<forall>key b. cacheBuckets s key = Some b \<longrightarrow>
                 (\<exists>b'. buckets' key = Some b' \<and> inFlight b' = inFlight b)"
  shows "chainsTracked
           (s\<lparr>cacheBuckets := buckets',
              promises := (promises s)[pid := (promises s ! pid)\<lparr>p_phase := ph\<rparr>]\<rparr>)"
  unfolding chainsTracked_def
proof (intro allI impI)
  fix q
  let ?s' = "s\<lparr>cacheBuckets := buckets',
               promises := (promises s)[pid := (promises s ! pid)\<lparr>p_phase := ph\<rparr>]\<rparr>"
  assume lt: "q < length (promises ?s')"
    and un: "\<not> isSettled (p_phase (promises ?s' ! q))"
  have q: "q < length (promises s)" using lt by simp
  have key: "p_bucket (promises ?s' ! q) = p_bucket (promises s ! q)"
    using q by (cases "q = pid") simp_all
  have "\<not> isSettled (p_phase (promises s ! q))"
    using un q pid by (cases "q = pid") simp_all
  from chainsTracked_D [OF t q this]
  obtain b where "cacheBuckets s (p_bucket (promises s ! q)) = Some b" "inFlight b = Some q"
    by blast
  with keep obtain b' where "buckets' (p_bucket (promises s ! q)) = Some b'" "inFlight b' = Some q"
    by fastforce
  then show "\<exists>b. cacheBuckets ?s' (p_bucket (promises ?s' ! q)) = Some b \<and> inFlight b = Some q"
    using key by simp
qed

lemma chainsTracked_fetcherSettles:
  assumes "chainsTracked s"
  shows "chainsTracked (fetcherSettles pid r s)"
proof (cases "phaseOf s pid = Some Running")
  case False
  then show ?thesis
    using assms by (simp add: fetcherSettles_def split: option.splits phase.splits)
next
  case True
  then have pid: "pid < length (promises s)" "\<not> isSettled (p_phase (promises s ! pid))"
    by (simp_all add: phaseOf_Some)
  have "chainsTracked
          (s\<lparr>cacheBuckets := cacheBuckets s,
             promises := (promises s)[pid := (promises s ! pid)\<lparr>p_phase := FetcherSettled r\<rparr>]\<rparr>)"
    by (rule chainsTracked_rephase [OF assms pid]) simp
  then show ?thesis
    using True by (simp add: fetcherSettles_def setPhase_def)
qed

lemma chainsTracked_thenCallback:
  assumes "chainsTracked s"
  shows "chainsTracked (thenCallback pid clock s)"
proof (cases "\<exists>r. phaseOf s pid = Some (FetcherSettled r)")
  case False
  then show ?thesis using assms by (simp add: thenCallback_disabled)
next
  case True
  then obtain r where r: "phaseOf s pid = Some (FetcherSettled r)" by blast
  then have pid: "pid < length (promises s)" "\<not> isSettled (p_phase (promises s ! pid))"
    by (simp_all add: phaseOf_Some)
  let ?s' = "thenCallback pid clock s"
  have keep: "\<forall>key b. cacheBuckets s key = Some b \<longrightarrow>
                 (\<exists>b'. cacheBuckets ?s' key = Some b' \<and> inFlight b' = inFlight b)"
  proof (cases r)
    case (Inl err)
    then show ?thesis using r by (simp add: thenCallback_rejected)
  next
    case (Inr payload)
    then show ?thesis
      using r by (auto simp add: thenCallback_fulfilled storeFetched_def split: option.splits)
  qed
  have p: "promises ?s' = (promises s)[pid := (promises s ! pid)\<lparr>p_phase := ThenSettled r\<rparr>]"
    using r by (cases r) (simp_all add: thenCallback_fulfilled thenCallback_rejected)
  have eq: "s\<lparr>cacheBuckets := cacheBuckets ?s',
              promises := (promises s)[pid := (promises s ! pid)\<lparr>p_phase := ThenSettled r\<rparr>]\<rparr> = ?s'"
    by (rule pipeline.equality) (simp_all add: p)
  have "chainsTracked
          (s\<lparr>cacheBuckets := cacheBuckets ?s',
             promises := (promises s)[pid := (promises s ! pid)\<lparr>p_phase := ThenSettled r\<rparr>]\<rparr>)"
    by (rule chainsTracked_rephase [OF assms pid keep])
  then show ?thesis by (simp only: eq)
qed

lemma chainsTracked_finallyCallback:
  assumes t: "chainsTracked s"
  shows "chainsTracked (finallyCallback pid s)"
proof (cases "\<exists>r. phaseOf s pid = Some (ThenSettled r)")
  case False
  then show ?thesis using assms by (simp add: finallyCallback_disabled)
next
  case True
  then obtain r where r: "phaseOf s pid = Some (ThenSettled r)" by blast
  then have pid: "pid < length (promises s)" "\<not> isSettled (p_phase (promises s ! pid))"
    by (simp_all add: phaseOf_Some)
  from chainsTracked_D [OF t pid]
  obtain b where b: "cacheBuckets s (p_bucket (promises s ! pid)) = Some b" "inFlight b = Some pid"
    by blast
  let ?s' = "finallyCallback pid s"
  have cb: "cacheBuckets ?s' = (cacheBuckets s)(p_bucket (promises s ! pid) \<mapsto> b\<lparr>inFlight := None\<rparr>)"
    using r b by (simp add: finallyCallback_enabled)
  have pr: "promises ?s' = (promises s)[pid := (promises s ! pid)\<lparr>p_phase := Settled r\<rparr>]"
    using r by (simp add: finallyCallback_enabled)
  show ?thesis
    unfolding chainsTracked_def
  proof (intro allI impI)
    fix q
    assume lt: "q < length (promises ?s')"
      and un: "\<not> isSettled (p_phase (promises ?s' ! q))"
    have q: "q < length (promises s)" using lt by (simp add: pr)
    have ne: "q \<noteq> pid" using un q by (auto simp add: pr)
    then have same: "promises ?s' ! q = promises s ! q" by (simp add: pr)
    from chainsTracked_D [OF t q] un same
    obtain c where c: "cacheBuckets s (p_bucket (promises s ! q)) = Some c" "inFlight c = Some q"
      by auto
    have "p_bucket (promises s ! q) \<noteq> p_bucket (promises s ! pid)"
      using b c ne by auto
    then show "\<exists>b. cacheBuckets ?s' (p_bucket (promises ?s' ! q)) = Some b \<and> inFlight b = Some q"
      using c same by (simp add: cb)
  qed
qed

lemma chainsTracked_step:
  assumes "chainsTracked s"
  shows "chainsTracked (step e s)"
  using assms
  by (cases e)
     (simp_all add: chainsTracked_enter chainsTracked_fetcherSettles chainsTracked_thenCallback
        chainsTracked_finallyCallback)

lemma reachable_chainsTracked: "reachable s \<Longrightarrow> chainsTracked s"
  by (induction rule: reachable.induct) (simp_all add: chainsTracked_initial chainsTracked_step)

lemma filter_at_most_one:
  assumes "distinct xs" "\<forall>x\<in>set xs. \<forall>y\<in>set xs. P x \<and> P y \<longrightarrow> x = y"
  shows "length (filter P xs) \<le> 1"
proof -
  have d: "distinct (filter P xs)" using assms(1) by simp
  have "\<forall>a\<in>set (filter P xs). \<forall>b\<in>set (filter P xs). a = b"
    using assms(2) by auto
  then have "card (set (filter P xs)) \<le> Suc 0"
    by (simp add: card_le_Suc0_iff_eq)
  then show ?thesis
    using distinct_card [OF d] by simp
qed

lemma reachable_outstanding:
  assumes "reachable s"
  shows "length (outstanding s key) \<le> 1"
  unfolding outstanding_def
proof (rule filter_at_most_one)
  show "distinct [0..<length (promises s)]" by simp
  have t: "chainsTracked s" using assms by (rule reachable_chainsTracked)
  show "\<forall>x\<in>set [0..<length (promises s)]. \<forall>y\<in>set [0..<length (promises s)].
          (p_bucket (promises s ! x) = key \<and> p_phase (promises s ! x) = Running) \<and>
          (p_bucket (promises s ! y) = key \<and> p_phase (promises s ! y) = Running) \<longrightarrow> x = y"
  proof (intro ballI impI)
    fix x y
    assume x: "x \<in> set [0..<length (promises s)]" and y: "y \<in> set [0..<length (promises s)]"
      and h: "(p_bucket (promises s ! x) = key \<and> p_phase (promises s ! x) = Running) \<and>
          (p_bucket (promises s ! y) = key \<and> p_phase (promises s ! y) = Running)"
    from chainsTracked_D [OF t, of x] x h
    obtain b where b: "cacheBuckets s key = Some b" "inFlight b = Some x" by auto
    from chainsTracked_D [OF t, of y] y h
    obtain c where c: "cacheBuckets s key = Some c" "inFlight c = Some y" by auto
    from b c show "x = y" by simp
  qed
qed

subsection \<open>Which events write the slots\<close>

lemma step_slots:
  assumes "cacheBuckets s key = Some b"
  shows "\<exists>b'. cacheBuckets (step ev s) key = Some b' \<and>
           (cache b' = cache b \<and> lastGood b' = lastGood b \<or>
            (\<exists>pid clock payload.
               ev = ThenCallback pid clock \<and>
               phaseOf s pid = Some (FetcherSettled (Inr payload)) \<and>
               cache b' = Some \<lparr>data = payload, fetchedAt = clock\<rparr> \<and>
               lastGood b' = Some \<lparr>data = payload, fetchedAt = clock\<rparr>))"
proof (cases ev)
  case (Enter k f now)
  show ?thesis
  proof (cases s k now rule: enter_cases)
    case (fresh b0 e)
    then show ?thesis using assms Enter by (simp add: enter_fresh)
  next
    case (join b0 pid)
    then show ?thesis using assms Enter by (simp add: enter_join)
  next
    case (start b0)
    then show ?thesis using assms Enter by (auto simp add: enter_start)
  next
    case new
    then show ?thesis using assms Enter by (auto simp add: enter_new)
  qed
next
  case (FetcherSettles pid r)
  then show ?thesis using assms by (simp add: fetcherSettles_effect)
next
  case (ThenCallback pid clock)
  show ?thesis
  proof (cases "\<exists>r. phaseOf s pid = Some (FetcherSettled r)")
    case False
    then show ?thesis using assms ThenCallback by (simp add: thenCallback_disabled)
  next
    case True
    then obtain r where r: "phaseOf s pid = Some (FetcherSettled r)" by blast
    show ?thesis
    proof (cases r)
      case (Inl err)
      then show ?thesis using assms ThenCallback r by (simp add: thenCallback_rejected)
    next
      case (Inr payload)
      then show ?thesis
        using assms ThenCallback r
        by (auto simp add: thenCallback_fulfilled storeFetched_def split: option.splits)
    qed
  qed
next
  case (FinallyCallback pid)
  show ?thesis
  proof (cases "\<exists>r. phaseOf s pid = Some (ThenSettled r)")
    case False
    then show ?thesis using assms FinallyCallback by (simp add: finallyCallback_disabled)
  next
    case True
    then obtain r where "phaseOf s pid = Some (ThenSettled r)" by blast
    then show ?thesis
      using assms FinallyCallback
      by (auto simp add: finallyCallback_enabled split: option.splits)
  qed
qed

lemma finallyCallback_clears:
  assumes "reachable s" "phaseOf s pid = Some (ThenSettled r)"
  shows "\<exists>b. cacheBuckets (finallyCallback pid s) (p_bucket (promises s ! pid)) = Some b \<and>
              inFlight b = None"
proof -
  have "pid < length (promises s)" "\<not> isSettled (p_phase (promises s ! pid))"
    using assms(2) by (simp_all add: phaseOf_Some)
  from chainsTracked_D [OF reachable_chainsTracked [OF assms(1)] this]
  obtain b where "cacheBuckets s (p_bucket (promises s ! pid)) = Some b" by blast
  then show ?thesis
    using assms(2) by (simp add: finallyCallback_enabled)
qed

lemma invocations_append:
  "invocations (s\<lparr>cacheBuckets := m,
                  promises := promises s @ [\<lparr>p_bucket = key, p_fetcher = f, p_phase = Running\<rparr>]\<rparr>) k =
     (if k = key then Suc (invocations s k) else invocations s k)"
  by (simp add: invocations_def)

lemma enter_empty_bucket:
  assumes "cacheBuckets s key = None \<or> cacheBuckets s key = Some emptyBucket"
  shows "getSnapshotForBucket_enter key f ov now clock s =
           (Awaiting (length (promises s)),
            s\<lparr>cacheBuckets :=
                (cacheBuckets s)(key \<mapsto> emptyBucket\<lparr>inFlight := Some (length (promises s))\<rparr>),
              promises := promises s @ [\<lparr>p_bucket = key, p_fetcher = f, p_phase = Running\<rparr>]\<rparr>)"
proof (cases "cacheBuckets s key")
  case None
  then show ?thesis by (rule enter_new)
next
  case (Some b)
  then have b: "b = emptyBucket" using assms by simp
  have "\<not> isFresh b now" "inFlight b = None"
    by (simp_all add: b isFresh_def emptyBucket_def)
  from enter_start [OF Some this] show ?thesis by (simp add: b)
qed

subsection \<open>The claims about the cache\<close>

text \<open>
  C4.  When the bucket holds a cache entry whose age, the clock on entry minus the
  entry's \<open>fetchedAt\<close>, is below the fresh window of 300000 ms, the request returns that
  entry's payload (with the caller's name override applied, none if no name is given),
  tagged \<open>cache\<close> with the entry's \<open>fetchedAt\<close>.  The state is left as it was: no
  promise is created, so the fetch function is not invoked.
\<close>

theorem fresh_cache_hit:
  assumes "cacheBuckets s key = Some b" and "cache b = Some e"
    and "now - fetchedAt e < CACHE_TTL_MS"
  shows "getSnapshotForBucket_enter key f ov now clock s =
           (Returned \<lparr>snap_data = applyOverrideName (data e) ov,
                      meta = \<lparr>source = Cache, meta_fetchedAt = fetchedAt e,
                              ageMs = clock - fetchedAt e\<rparr>\<rparr>, s) \<and>
         promises (snd (getSnapshotForBucket_enter key f ov now clock s)) = promises s \<and>
         invocations (snd (getSnapshotForBucket_enter key f ov now clock s)) key =
           invocations s key \<and>
         applyOverrideName (data e) None = data e \<and>
         CACHE_TTL_MS = 300000"
proof -
  have "getSnapshotForBucket_enter key f ov now clock s =
           (Returned \<lparr>snap_data = applyOverrideName (data e) ov,
                      meta = \<lparr>source = Cache, meta_fetchedAt = fetchedAt e,
                              ageMs = clock - fetchedAt e\<rparr>\<rparr>, s)"
    using assms by (rule enter_fresh)
  then show ?thesis
    by (simp add: applyOverrideName_def CACHE_TTL_MS_def)
qed

lemma sampleState_default:
  "cacheBuckets sampleState ''default'' =
     Some \<lparr>cache = Some sampleEntry, lastGood = Some sampleEntry, inFlight = None\<rparr>"
  by (simp add: sampleState_def)

text \<open>
  On the sample state, whose entry was fetched at time 1000, a request at time 300999
  returns the cached payload and leaves the state unchanged.
\<close>

theorem fresh_cache_hit_witness:
  "getSnapshotForBucket_enter ''default'' FetchDefault None 300999 301000 sampleState =
     (Returned \<lparr>snap_data = samplePayload,
                meta = \<lparr>source = Cache, meta_fetchedAt = 1000, ageMs = 300000\<rparr>\<rparr>, sampleState)"
proof -
  have c: "cache \<lparr>cache = Some sampleEntry, lastGood = Some sampleEntry, inFlight = None\<rparr> =
             Some sampleEntry"
    by simp
  have a: "300999 - fetchedAt sampleEntry < CACHE_TTL_MS"
    by (simp add: sampleEntry_def CACHE_TTL_MS_def)
  from fresh_cache_hit [OF sampleState_default c a, of FetchDefault None 301000]
  show ?thesis by (simp add: sampleEntry_def)
qed

text \<open>
  C3.  When the awaited fetch has failed, the caller looks at \<open>lastGood\<close>, or at the
  cache slot if \<open>lastGood\<close> is empty.  If that entry's age (the clock on entry minus its
  \<open>fetchedAt\<close>) is below the stale window of 1800000 ms, the result is the entry's
  payload (with the caller's name override applied) tagged \<open>stale\<close> with the entry's
  \<open>fetchedAt\<close>.  If there is no entry, or its age is 1800000 ms or more, the result is
  the error of the fetch, unchanged.  A caller whose promise has settled with an error
  resumes with exactly this result.
\<close>

theorem failed_fetch_fallback:
  "(orElse (lastGood bucket) (cache bucket) = Some e \<and> now - fetchedAt e < STALE_TTL_MS \<longrightarrow>
      afterAwait bucket ov now (Inl err) clock1 clock2 =
        Inr \<lparr>snap_data = applyOverrideName (data e) ov,
             meta = \<lparr>source = Stale, meta_fetchedAt = fetchedAt e,
                     ageMs = clock2 - fetchedAt e\<rparr>\<rparr>) \<and>
   (orElse (lastGood bucket) (cache bucket) = None \<longrightarrow>
      afterAwait bucket ov now (Inl err) clock1 clock2 = Inl err) \<and>
   (orElse (lastGood bucket) (cache bucket) = Some e \<and> STALE_TTL_MS \<le> now - fetchedAt e \<longrightarrow>
      afterAwait bucket ov now (Inl err) clock1 clock2 = Inl err) \<and>
   (cacheBuckets s key = Some bucket \<and> phaseOf s pid = Some (Settled (Inl err)) \<longrightarrow>
      getSnapshotForBucket_resume key ov now pid clock1 clock2 s =
        Some (afterAwait bucket ov now (Inl err) clock1 clock2)) \<and>
   orElse (lastGood bucket) (cache bucket) =
     (case lastGood bucket of None \<Rightarrow> cache bucket | Some g \<Rightarrow> Some g) \<and>
   applyOverrideName (data e) None = data e \<and>
   STALE_TTL_MS = 1800000"
  by (simp add: afterAwait_def buildMeta_def getSnapshotForBucket_resume_def orElse_def
      applyOverrideName_def STALE_TTL_MS_def)

text \<open>
  With the sample entry, fetched at time 1000: a failure seen by a request that entered
  ten minutes later is answered with the stale entry; one that entered forty minutes
  later, or that finds an empty bucket, gets the error.
\<close>

theorem failed_fetch_fallback_witness:
  "afterAwait \<lparr>cache = Some sampleEntry, lastGood = Some sampleEntry, inFlight = None\<rparr>
     None 601000 (Inl (Some TransportError)) 601500 601501 =
     Inr \<lparr>snap_data = samplePayload,
          meta = \<lparr>source = Stale, meta_fetchedAt = 1000, ageMs = 600501\<rparr>\<rparr> \<and>
   afterAwait \<lparr>cache = Some sampleEntry, lastGood = Some sampleEntry, inFlight = None\<rparr>
     None 2401000 (Inl (Some TransportError)) 2401500 2401501 = Inl (Some TransportError) \<and>
   afterAwait emptyBucket None 0 (Inl (Some TransportError)) 1 2 = Inl (Some TransportError)"
proof -
  let ?b = "\<lparr>cache = Some sampleEntry, lastGood = Some sampleEntry, inFlight = None\<rparr>"
  have f: "orElse (lastGood ?b) (cache ?b) = Some sampleEntry"
    by (simp add: orElse_def)
  have n: "orElse (lastGood emptyBucket) (cache emptyBucket) = None"
    by (simp add: orElse_def emptyBucket_def)
  have a1: "601000 - fetchedAt sampleEntry < STALE_TTL_MS"
    by (simp add: sampleEntry_def STALE_TTL_MS_def)
  have a2: "STALE_TTL_MS \<le> 2401000 - fetchedAt sampleEntry"
    by (simp add: sampleEntry_def STALE_TTL_MS_def)
  have "afterAwait ?b None 601000 (Inl (Some TransportError)) 601500 601501 =
          Inr \<lparr>snap_data = applyOverrideName (data sampleEntry) None,
               meta = \<lparr>source = Stale, meta_fetchedAt = fetchedAt sampleEntry,
                       ageMs = 601501 - fetchedAt sampleEntry\<rparr>\<rparr>"
    using failed_fetch_fallback
            [where bucket = ?b and e = sampleEntry and now = 601000 and ov = None
               and err = "Some TransportError" and ?clock1.0 = 601500 and ?clock2.0 = 601501]
          f a1
    by blast
  moreover have "afterAwait ?b None 2401000 (Inl (Some TransportError)) 2401500 2401501 =
          Inl (Some TransportError)"
    using failed_fetch_fallback
            [where bucket = ?b and e = sampleEntry and now = 2401000 and ov = None
               and err = "Some TransportError" and ?clock1.0 = 2401500 and ?clock2.0 = 2401501]
          f a2
    by blast
  moreover have "afterAwait emptyBucket None 0 (Inl (Some TransportError)) 1 2 =
          Inl (Some TransportError)"
    using failed_fetch_fallback
            [where bucket = emptyBucket and now = 0 and ov = None
               and err = "Some TransportError" and ?clock1.0 = 1 and ?clock2.0 = 2]
          n
    by blast
  ultimately show ?thesis
    by (simp add: sampleEntry_def applyOverrideName_def)
qed

text \<open>
  C10.  In every state the cache can reach, the two slots of every bucket are equal;
  hence the fallback \<open>lastGood ?? cache\<close> is always \<open>lastGood\<close> itself.
\<close>

theorem slots_always_equal:
  assumes "reachable s" and "cacheBuckets s key = Some b"
  shows "cache b = lastGood b \<and> orElse (lastGood b) (cache b) = lastGood b"
proof -
  have "cache b = lastGood b"
    using reachable_slotsAgree [OF assms(1)] assms(2) by (simp add: slotsAgree_def)
  then show ?thesis
    by (simp add: orElse_def split: option.splits)
qed

text \<open>The sample state is reachable, and both slots of its bucket hold the sample entry.\<close>

theorem slots_always_equal_witness:
  "reachable sampleState \<and>
   cacheBuckets sampleState ''default'' =
     Some \<lparr>cache = Some sampleEntry, lastGood = Some sampleEntry, inFlight = None\<rparr> \<and>
   cache \<lparr>cache = Some sampleEntry, lastGood = Some sampleEntry, inFlight = None\<rparr> =
   lastGood \<lparr>cache = Some sampleEntry, lastGood = Some sampleEntry, inFlight = None\<rparr>"
  using slots_always_equal [OF reachable_sampleState sampleState_default]
    reachable_sampleState sampleState_default
  by simp

text \<open>
  C6.  When the \<open>then\<close> callback of a fulfilled fetch runs, it writes the same entry,
  the payload with the clock read in the callback, into both slots of the bucket and
  changes nothing else in the buckets.  When the fetch was rejected it changes no
  bucket.  The \<open>finally\<close> callback, after a fulfilled or a rejected fetch alike, sets
  \<open>inFlight\<close> of the bucket to \<open>null\<close> and changes nothing else; in a reachable state
  the bucket exists.  No other event changes the slots of a bucket: after any event, a
  bucket has the slots it had, or both hold the entry a fulfilled \<open>then\<close> callback wrote.
\<close>

theorem fetch_completion:
  "(phaseOf s pid = Some (FetcherSettled (Inr payload)) \<and>
    cacheBuckets s (p_bucket (promises s ! pid)) = Some b1 \<longrightarrow>
      cacheBuckets (thenCallback pid clock s) =
        (cacheBuckets s)(p_bucket (promises s ! pid) \<mapsto>
           b1\<lparr>cache := Some \<lparr>data = payload, fetchedAt = clock\<rparr>,
              lastGood := Some \<lparr>data = payload, fetchedAt = clock\<rparr>\<rparr>)) \<and>
   (phaseOf s pid = Some (FetcherSettled (Inl err)) \<longrightarrow>
      cacheBuckets (thenCallback pid clock s) = cacheBuckets s) \<and>
   (phaseOf s pid = Some (ThenSettled r) \<and>
    cacheBuckets s (p_bucket (promises s ! pid)) = Some b2 \<longrightarrow>
      cacheBuckets (finallyCallback pid s) =
        (cacheBuckets s)(p_bucket (promises s ! pid) \<mapsto> b2\<lparr>inFlight := None\<rparr>)) \<and>
   (reachable s \<and> phaseOf s pid = Some (ThenSettled r) \<longrightarrow>
      (\<exists>b. cacheBuckets (finallyCallback pid s) (p_bucket (promises s ! pid)) = Some b \<and>
           inFlight b = None)) \<and>
   (cacheBuckets s key = Some b3 \<longrightarrow>
      (\<exists>b'. cacheBuckets (step ev s) key = Some b' \<and>
         (cache b' = cache b3 \<and> lastGood b' = lastGood b3 \<or>
          (\<exists>p c d. ev = ThenCallback p c \<and> phaseOf s p = Some (FetcherSettled (Inr d)) \<and>
             cache b' = Some \<lparr>data = d, fetchedAt = c\<rparr> \<and>
             lastGood b' = Some \<lparr>data = d, fetchedAt = c\<rparr>))))"
proof (intro conjI impI)
  assume "phaseOf s pid = Some (FetcherSettled (Inr payload)) \<and>
    cacheBuckets s (p_bucket (promises s ! pid)) = Some b1"
  then show "cacheBuckets (thenCallback pid clock s) =
        (cacheBuckets s)(p_bucket (promises s ! pid) \<mapsto>
           b1\<lparr>cache := Some \<lparr>data = payload, fetchedAt = clock\<rparr>,
              lastGood := Some \<lparr>data = payload, fetchedAt = clock\<rparr>\<rparr>)"
    by (simp add: thenCallback_fulfilled storeFetched_def)
next
  assume "phaseOf s pid = Some (FetcherSettled (Inl err))"
  then show "cacheBuckets (thenCallback pid clock s) = cacheBuckets s"
    by (rule thenCallback_rejected)
next
  assume "phaseOf s pid = Some (ThenSettled r) \<and>
    cacheBuckets s (p_bucket (promises s ! pid)) = Some b2"
  then show "cacheBuckets (finallyCallback pid s) =
        (cacheBuckets s)(p_bucket (promises s ! pid) \<mapsto> b2\<lparr>inFlight := None\<rparr>)"
    by (simp add: finallyCallback_enabled)
next
  assume "reachable s \<and> phaseOf s pid = Some (ThenSettled r)"
  then show "\<exists>b. cacheBuckets (finallyCallback pid s) (p_bucket (promises s ! pid)) = Some b \<and>
           inFlight b = None"
    by (simp add: finallyCallback_clears)
next
  assume "cacheBuckets s key = Some b3"
  then show "\<exists>b'. cacheBuckets (step ev s) key = Some b' \<and>
         (cache b' = cache b3 \<and> lastGood b' = lastGood b3 \<or>
          (\<exists>p c d. ev = ThenCallback p c \<and> phaseOf s p = Some (FetcherSettled (Inr d)) \<and>
             cache b' = Some \<lparr>data = d, fetchedAt = c\<rparr> \<and>
             lastGood b' = Some \<lparr>data = d, fetchedAt = c\<rparr>))"
    by (rule step_slots)
qed

lemma run_entered:
  "run [Enter ''default'' FetchDefault 0] initial =
     \<lparr>cacheBuckets = (\<lambda>key. None)(''default'' \<mapsto> \<lparr>cache = None, lastGood = None, inFlight = Some 0\<rparr>),
      promises = [\<lparr>p_bucket = ''default'', p_fetcher = FetchDefault, p_phase = Running\<rparr>]\<rparr>"
  by (simp add: run_def initial_def getSnapshotForBucket_enter_def getBucket_def isFresh_def
      emptyBucket_def Let_def)

lemma run_fetcher_settled:
  "run [Enter ''default'' FetchDefault 0, FetcherSettles 0 r] initial =
     \<lparr>cacheBuckets = (\<lambda>key. None)(''default'' \<mapsto> \<lparr>cache = None, lastGood = None, inFlight = Some 0\<rparr>),
      promises = [\<lparr>p_bucket = ''default'', p_fetcher = FetchDefault, p_phase = FetcherSettled r\<rparr>]\<rparr>"
  by (simp add: run_def initial_def getSnapshotForBucket_enter_def getBucket_def isFresh_def
      emptyBucket_def Let_def fetcherSettles_def phaseOf_def setPhase_def)

lemma run_then_rejected:
  "run [Enter ''default'' FetchDefault 0, FetcherSettles 0 (Inl err), ThenCallback 0 c] initial =
     \<lparr>cacheBuckets = (\<lambda>key. None)(''default'' \<mapsto> \<lparr>cache = None, lastGood = None, inFlight = Some 0\<rparr>),
      promises = [\<lparr>p_bucket = ''default'', p_fetcher = FetchDefault, p_phase = ThenSettled (Inl err)\<rparr>]\<rparr>"
  by (simp add: run_def initial_def getSnapshotForBucket_enter_def getBucket_def isFresh_def
      emptyBucket_def Let_def fetcherSettles_def thenCallback_def phaseOf_def setPhase_def)

lemma run_then_fulfilled:
  "run [Enter ''default'' FetchDefault 0, FetcherSettles 0 (Inr payload), ThenCallback 0 c] initial =
     \<lparr>cacheBuckets =
        (\<lambda>key. None)(''default'' \<mapsto>
          \<lparr>cache = Some \<lparr>data = payload, fetchedAt = c\<rparr>,
           lastGood = Some \<lparr>data = payload, fetchedAt = c\<rparr>, inFlight = Some 0\<rparr>),
      promises =
        [\<lparr>p_bucket = ''default'', p_fetcher = FetchDefault, p_phase = ThenSettled (Inr payload)\<rparr>]\<rparr>"
  by (simp add: run_def initial_def getSnapshotForBucket_enter_def getBucket_def isFresh_def
      emptyBucket_def Let_def fetcherSettles_def thenCallback_def phaseOf_def setPhase_def
      updateBucket_def storeFetched_def)

text \<open>
  One request to the default bucket.  After a fulfilled fetch the \<open>then\<close> callback at time
  1000 leaves the sample entry in both slots, and the \<open>finally\<close> callback keeps both and
  clears the in-flight marker; after a rejected fetch the slots stay empty, and the
  \<open>finally\<close> callback leaves the empty bucket with nothing in flight.
\<close>

theorem fetch_completion_witness:
  "cacheBuckets
     (thenCallback 0 1000
        (run [Enter ''default'' FetchDefault 0, FetcherSettles 0 (Inr samplePayload)] initial))
     ''default'' =
     Some \<lparr>cache = Some sampleEntry, lastGood = Some sampleEntry, inFlight = Some 0\<rparr> \<and>
   cacheBuckets
     (thenCallback 0 1000
        (run [Enter ''default'' FetchDefault 0, FetcherSettles 0 (Inl None)] initial))
     ''default'' =
     Some \<lparr>cache = None, lastGood = None, inFlight = Some 0\<rparr> \<and>
   cacheBuckets
     (finallyCallback 0
        (run [Enter ''default'' FetchDefault 0, FetcherSettles 0 (Inl None), ThenCallback 0 1000]
           initial))
     ''default'' = Some emptyBucket \<and>
   cacheBuckets
     (finallyCallback 0
        (run [Enter ''default'' FetchDefault 0, FetcherSettles 0 (Inr samplePayload),
              ThenCallback 0 1000] initial))
     ''default'' =
     Some \<lparr>cache = Some sampleEntry, lastGood = Some sampleEntry, inFlight = None\<rparr>"
proof -
  let ?ok2 = "run [Enter ''default'' FetchDefault 0, FetcherSettles 0 (Inr samplePayload),
                   ThenCallback 0 1000] initial"
  let ?full = "\<lparr>cache = Some \<lparr>data = samplePayload, fetchedAt = 1000\<rparr>,
                lastGood = Some \<lparr>data = samplePayload, fetchedAt = 1000\<rparr>, inFlight = Some 0\<rparr>"
  have h4: "phaseOf ?ok2 0 = Some (ThenSettled (Inr samplePayload)) \<and>
            cacheBuckets ?ok2 (p_bucket (promises ?ok2 ! 0)) = Some ?full"
    by (simp add: run_then_fulfilled phaseOf_def)
  have f4: "cacheBuckets (finallyCallback 0 ?ok2) =
          (cacheBuckets ?ok2)(p_bucket (promises ?ok2 ! 0) \<mapsto> ?full\<lparr>inFlight := None\<rparr>)"
    using fetch_completion [where s = ?ok2 and pid = 0 and r = "Inr samplePayload"
                              and ?b2.0 = ?full] h4
    by blast
  let ?ok = "run [Enter ''default'' FetchDefault 0, FetcherSettles 0 (Inr samplePayload)] initial"
  let ?ko = "run [Enter ''default'' FetchDefault 0, FetcherSettles 0 (Inl None)] initial"
  let ?ko2 = "run [Enter ''default'' FetchDefault 0, FetcherSettles 0 (Inl None), ThenCallback 0 1000]
                initial"
  let ?b = "\<lparr>cache = None, lastGood = None, inFlight = Some 0\<rparr>"
  have h1: "phaseOf ?ok 0 = Some (FetcherSettled (Inr samplePayload)) \<and>
            cacheBuckets ?ok (p_bucket (promises ?ok ! 0)) = Some ?b"
    by (simp add: run_fetcher_settled phaseOf_def)
  have h2: "phaseOf ?ko 0 = Some (FetcherSettled (Inl None))"
    by (simp add: run_fetcher_settled phaseOf_def)
  have h3: "phaseOf ?ko2 0 = Some (ThenSettled (Inl None)) \<and>
            cacheBuckets ?ko2 (p_bucket (promises ?ko2 ! 0)) = Some ?b"
    by (simp add: run_then_rejected phaseOf_def)
  have "cacheBuckets (thenCallback 0 1000 ?ok) =
          (cacheBuckets ?ok)(p_bucket (promises ?ok ! 0) \<mapsto>
             ?b\<lparr>cache := Some \<lparr>data = samplePayload, fetchedAt = 1000\<rparr>,
                lastGood := Some \<lparr>data = samplePayload, fetchedAt = 1000\<rparr>\<rparr>)"
    using fetch_completion [where s = ?ok and pid = 0 and payload = samplePayload and ?b1.0 = ?b
                              and clock = 1000] h1
    by blast
  moreover have "cacheBuckets (thenCallback 0 1000 ?ko) = cacheBuckets ?ko"
    using fetch_completion [where s = ?ko and pid = 0 and err = None and clock = 1000] h2
    by blast
  moreover have "cacheBuckets (finallyCallback 0 ?ko2) =
          (cacheBuckets ?ko2)(p_bucket (promises ?ko2 ! 0) \<mapsto> ?b\<lparr>inFlight := None\<rparr>)"
    using fetch_completion [where s = ?ko2 and pid = 0 and r = "Inl None" and ?b2.0 = ?b] h3
    by blast
  ultimately show ?thesis
    using f4
    by (simp add: run_fetcher_settled run_then_rejected run_then_fulfilled sampleEntry_def
        emptyBucket_def)
qed

text \<open>
  C2.  In a reachable state, a request to a bucket one of whose promise chains has not
  run to its end leaves the state as it is, so it creates no promise and does not invoke
  the fetch function: it waits for that chain's promise, or returns the cache entry if
  the \<open>then\<close> callback has just made it fresh.  A request that finds the bucket stale
  with a promise in flight waits for that promise.  In every reachable state, at most one
  fetch per bucket is outstanding.  Two requests entering one after the other on a bucket
  that is absent or empty, with no callback between them, wait for the same promise, and
  the fetch function has been invoked exactly once more than before.
\<close>

theorem single_flight:
  "(cacheBuckets s key = Some b \<and> \<not> isFresh b now \<and> inFlight b = Some pid \<longrightarrow>
      getSnapshotForBucket_enter key f ov now clock s = (Awaiting pid, s)) \<and>
   (reachable s \<and> pid < length (promises s) \<and> p_bucket (promises s ! pid) = key \<and>
    \<not> isSettled (p_phase (promises s ! pid)) \<longrightarrow>
      snd (getSnapshotForBucket_enter key f ov now clock s) = s \<and>
      (fst (getSnapshotForBucket_enter key f ov now clock s) = Awaiting pid \<or>
       (\<exists>snap. fst (getSnapshotForBucket_enter key f ov now clock s) = Returned snap))) \<and>
   (reachable s \<longrightarrow> length (outstanding s key) \<le> 1) \<and>
   (cacheBuckets s key = None \<or> cacheBuckets s key = Some emptyBucket \<longrightarrow>
      fst (getSnapshotForBucket_enter key f ov now clock s) = Awaiting (length (promises s)) \<and>
      fst (getSnapshotForBucket_enter key f' ov' now' clock'
             (snd (getSnapshotForBucket_enter key f ov now clock s))) =
        Awaiting (length (promises s)) \<and>
      invocations
        (snd (getSnapshotForBucket_enter key f' ov' now' clock'
                (snd (getSnapshotForBucket_enter key f ov now clock s)))) key =
        invocations s key + 1)"
proof (intro conjI impI)
  assume "cacheBuckets s key = Some b \<and> \<not> isFresh b now \<and> inFlight b = Some pid"
  then show "getSnapshotForBucket_enter key f ov now clock s = (Awaiting pid, s)"
    by (simp add: enter_join)
next
  assume h: "reachable s \<and> pid < length (promises s) \<and> p_bucket (promises s ! pid) = key \<and>
    \<not> isSettled (p_phase (promises s ! pid))"
  then have "chainsTracked s" by (simp add: reachable_chainsTracked)
  from chainsTracked_D [OF this, of pid] h
  obtain c where c: "cacheBuckets s key = Some c" "inFlight c = Some pid" by auto
  have "getSnapshotForBucket_enter key f ov now clock s = (Awaiting pid, s) \<or>
        (\<exists>snap. getSnapshotForBucket_enter key f ov now clock s = (Returned snap, s))"
  proof (cases "isFresh c now")
    case False
    with c show ?thesis by (simp add: enter_join)
  next
    case True
    then obtain e where "cache c = Some e" "now - fetchedAt e < CACHE_TTL_MS"
      by (auto simp add: isFresh_def split: option.splits)
    with c show ?thesis by (simp add: enter_fresh)
  qed
  then show "snd (getSnapshotForBucket_enter key f ov now clock s) = s"
    and "fst (getSnapshotForBucket_enter key f ov now clock s) = Awaiting pid \<or>
       (\<exists>snap. fst (getSnapshotForBucket_enter key f ov now clock s) = Returned snap)"
    by auto
next
  assume "reachable s"
  then show "length (outstanding s key) \<le> 1"
    by (rule reachable_outstanding)
next
  assume e: "cacheBuckets s key = None \<or> cacheBuckets s key = Some emptyBucket"
  let ?n = "length (promises s)"
  let ?b = "emptyBucket\<lparr>inFlight := Some ?n\<rparr>"
  let ?s1 = "s\<lparr>cacheBuckets := (cacheBuckets s)(key \<mapsto> ?b),
               promises := promises s @ [\<lparr>p_bucket = key, p_fetcher = f, p_phase = Running\<rparr>]\<rparr>"
  have first: "getSnapshotForBucket_enter key f ov now clock s = (Awaiting ?n, ?s1)"
    using e by (rule enter_empty_bucket)
  have "cacheBuckets ?s1 key = Some ?b" "\<not> isFresh ?b now'" "inFlight ?b = Some ?n"
    by (simp_all add: isFresh_def emptyBucket_def)
  then have second: "getSnapshotForBucket_enter key f' ov' now' clock' ?s1 = (Awaiting ?n, ?s1)"
    by (rule enter_join)
  show "fst (getSnapshotForBucket_enter key f ov now clock s) = Awaiting ?n"
    by (simp add: first)
  show "fst (getSnapshotForBucket_enter key f' ov' now' clock'
             (snd (getSnapshotForBucket_enter key f ov now clock s))) = Awaiting ?n"
    by (simp add: first second)
  show "invocations
        (snd (getSnapshotForBucket_enter key f' ov' now' clock'
                (snd (getSnapshotForBucket_enter key f ov now clock s)))) key =
        invocations s key + 1"
    by (simp add: first second invocations_append)
qed

text \<open>
  On the initial state: two requests to the default bucket wait for promise 0 and the
  fetch function has been invoked once; the state after the first is reachable, has one
  outstanding fetch for that bucket, and a third request still waits for promise 0.
\<close>

theorem single_flight_witness:
  "fst (getSnapshotForBucket_enter ''default'' FetchDefault None 0 0 initial) = Awaiting 0 \<and>
   fst (getSnapshotForBucket_enter ''default'' FetchDefault None 5 5
          (snd (getSnapshotForBucket_enter ''default'' FetchDefault None 0 0 initial))) =
     Awaiting 0 \<and>
   invocations
     (snd (getSnapshotForBucket_enter ''default'' FetchDefault None 5 5
             (snd (getSnapshotForBucket_enter ''default'' FetchDefault None 0 0 initial))))
     ''default'' = 1 \<and>
   length (outstanding (run [Enter ''default'' FetchDefault 0] initial) ''default'') \<le> 1 \<and>
   getSnapshotForBucket_enter ''default'' FetchDefault None 7 7
     (run [Enter ''default'' FetchDefault 0] initial) =
     (Awaiting 0, run [Enter ''default'' FetchDefault 0] initial)"
proof -
  let ?s1 = "run [Enter ''default'' FetchDefault 0] initial"
  let ?b = "\<lparr>cache = None, lastGood = None, inFlight = Some 0\<rparr>"
  have e: "cacheBuckets initial ''default'' = None \<or>
           cacheBuckets initial ''default'' = Some emptyBucket"
    by (simp add: initial_def)
  have i: "invocations initial ''default'' = 0" "length (promises initial) = 0"
    by (simp_all add: invocations_def initial_def)
  have r: "reachable ?s1"
    by (rule reachable_run [OF reachable_initial])
  have j: "cacheBuckets ?s1 ''default'' = Some ?b \<and> \<not> isFresh ?b 7 \<and> inFlight ?b = Some 0"
    by (simp add: run_entered isFresh_def)
  have "fst (getSnapshotForBucket_enter ''default'' FetchDefault None 0 0 initial) =
          Awaiting (length (promises initial)) \<and>
        fst (getSnapshotForBucket_enter ''default'' FetchDefault None 5 5
               (snd (getSnapshotForBucket_enter ''default'' FetchDefault None 0 0 initial))) =
          Awaiting (length (promises initial)) \<and>
        invocations
          (snd (getSnapshotForBucket_enter ''default'' FetchDefault None 5 5
                  (snd (getSnapshotForBucket_enter ''default'' FetchDefault None 0 0 initial))))
          ''default'' = invocations initial ''default'' + 1"
    using single_flight [where s = initial and key = "''default''" and f = FetchDefault
                           and ov = None and now = 0 and clock = 0 and f' = FetchDefault
                           and ov' = None and now' = 5 and clock' = 5] e
    by blast
  moreover have "length (outstanding ?s1 ''default'') \<le> 1"
    using single_flight [where s = ?s1 and key = "''default''"] r by blast
  moreover have "getSnapshotForBucket_enter ''default'' FetchDefault None 7 7 ?s1 = (Awaiting 0, ?s1)"
    using single_flight [where s = ?s1 and key = "''default''" and b = ?b and now = 7
                           and pid = 0 and f = FetchDefault and ov = None and clock = 7] j
    by blast
  ultimately show ?thesis by (simp add: i)
qed

end
